theory Spec2Isabelle
  imports Main "HOL-Library.Sublist"
begin

section \<open>The render servers: a shallow embedding\<close>

text \<open>
  Two Express servers are embedded: the image-sequence renderer
  (\<^verbatim>\<open>backend/ffmpeg-renderer/index.js\<close>) and the text-overlay renderer
  (\<^verbatim>\<open>server.js\<close>). Each \<^verbatim>\<open>POST /render\<close> handler becomes a function from the
  request body, the environment of that invocation and the file system to the HTTP
  response, the file system afterwards and the list of external calls it made.
  Everything outside the handlers (the remote hosts, the encoder process, the object
  store, the clock) is an oracle field of the environment, so a theorem quantified over
  the environment holds for every behaviour of these collaborators.
\<close>

subsection \<open>Numbers and strings\<close>

text \<open>
  JavaScript renders a non-negative integer below \<open>10\<^sup>2\<^sup>1\<close> in a template literal or
  a string concatenation as its decimal digits: \<^verbatim>\<open>Date.now()\<close>, an array index, and
  \<^verbatim>\<open>imagePaths.length * 3\<close> are such integers.
\<close>

definition digit :: "nat \<Rightarrow> char" where
  "digit d = ''0123456789'' ! d"

function show_nat :: "nat \<Rightarrow> string" where
  "show_nat n = (if n < 10 then [digit n] else show_nat (n div 10) @ [digit (n mod 10)])"
  by pat_completeness auto
termination
  by (relation "measure id") auto

declare show_nat.simps [simp del]

definition quote_c :: char where
  "quote_c = CHR 0x27"

definition backslash_c :: char where
  "backslash_c = CHR 0x5C"

definition colon_c :: char where
  "colon_c = CHR 0x3A"

text \<open>
  A body field that is absent is \<open>None\<close>. A template literal renders an absent
  (undefined) value as the text \<^verbatim>\<open>undefined\<close>; a string is rendered as itself.
\<close>

definition template_str :: "string option \<Rightarrow> string" where
  "template_str v = (case v of None \<Rightarrow> ''undefined'' | Some s \<Rightarrow> s)"

text \<open>\<^verbatim>\<open>!v\<close> for a string field: absent and the empty string are falsy.\<close>

definition falsy :: "string option \<Rightarrow> bool" where
  "falsy v = (case v of None \<Rightarrow> True | Some s \<Rightarrow> s = [])"

subsection \<open>Paths and the file system\<close>

text \<open>
  A path is its list of segments below the root. \<^verbatim>\<open>__dirname\<close> is absolute and
  normalised, so \<^verbatim>\<open>path.join(dir, name)\<close> only has to normalise \<open>name\<close>: it is
  split at the separator, empty and \<^verbatim>\<open>.\<close> segments are dropped, and \<^verbatim>\<open>..\<close> drops the
  segment before it (nothing at the root).
\<close>

type_synonym path = "string list"

fun split_sep :: "string \<Rightarrow> string \<Rightarrow> string list" where
  "split_sep cur [] = [rev cur]"
| "split_sep cur (c # cs) =
     (if c = CHR ''/'' then rev cur # split_sep [] cs else split_sep (c # cur) cs)"

fun normalize_onto :: "string list \<Rightarrow> string list \<Rightarrow> path" where
  "normalize_onto acc [] = rev acc"
| "normalize_onto acc (s # ss) =
     (if s = [] \<or> s = ''.'' then normalize_onto acc ss
      else if s = ''..'' then normalize_onto (tl acc) ss
      else normalize_onto (s # acc) ss)"

definition path_join :: "path \<Rightarrow> string \<Rightarrow> path" where
  "path_join dir name = normalize_onto (rev dir) (split_sep [] name)"

text \<open>
  The file system maps a path to a directory or to a file of some byte size. The root is
  a directory. System errors are carried by their code.
\<close>

datatype node = Dir | File nat

type_synonym fs = "path \<rightharpoonup> node"

definition existsSync :: "fs \<Rightarrow> path \<Rightarrow> bool" where
  "existsSync f p = (p = [] \<or> f p \<noteq> None)"

definition is_dir :: "fs \<Rightarrow> path \<Rightarrow> bool" where
  "is_dir f p = (p = [] \<or> f p = Some Dir)"

definition mkdirSync :: "fs \<Rightarrow> path \<Rightarrow> string + fs" where
  "mkdirSync f p =
     (if existsSync f p then Inl ''EEXIST''
      else if \<not> is_dir f (butlast p) then Inl ''ENOENT''
      else Inr (f(p \<mapsto> Dir)))"

text \<open>\<^verbatim>\<open>fs.rmSync(p, { recursive: true, force: true })\<close>: the path and all below it.\<close>

definition rmSync :: "fs \<Rightarrow> path \<Rightarrow> fs" where
  "rmSync f p = (\<lambda>q. if prefix p q then None else f q)"

definition unlinkSync :: "fs \<Rightarrow> path \<Rightarrow> string + fs" where
  "unlinkSync f p =
     (case f p of
        None \<Rightarrow> Inl ''ENOENT''
      | Some Dir \<Rightarrow> Inl ''EISDIR''
      | Some (File n) \<Rightarrow> Inr (f(p := None)))"

text \<open>Opening a file for writing creates or truncates it; \<open>n\<close> bytes are then written.\<close>

definition write_file :: "fs \<Rightarrow> path \<Rightarrow> nat \<Rightarrow> string + fs" where
  "write_file f p n =
     (if p = [] \<or> f p = Some Dir then Inl ''EISDIR''
      else if \<not> is_dir f (butlast p) then Inl ''ENOENT''
      else Inr (f(p \<mapsto> File n)))"

subsection \<open>Encoder jobs, external calls, responses\<close>

text \<open>
  The calls made on a fluent-ffmpeg command, as data: each input with the argument of
  \<^verbatim>\<open>.loop\<close> (if called), the array given to \<^verbatim>\<open>.complexFilter\<close>, the \<^verbatim>\<open>.map\<close>
  labels, the codecs, the array given to \<^verbatim>\<open>.outputOptions\<close> and the path given to
  \<^verbatim>\<open>.save\<close>.
\<close>

record job =
  inputs :: "(path \<times> nat option) list"
  complexFilter :: "string list"
  maps :: "string list"
  videoCodec :: "string option"
  audioCodec :: "string option"
  outputOptions :: "string list"
  outputPath :: path

record upload_params =
  Bucket :: "string option"
  Key :: string
  ContentType :: string
  ACL :: string

datatype body_outcome = Complete nat | Broken nat string

datatype fetch_result = NetworkError string | HttpResponse bool body_outcome

datatype encode_outcome = End | Error string

datatype event =
    FetchEv nat string
  | EncodeEv job
  | UploadEv upload_params

text \<open>
  The environment of one handler invocation: \<^verbatim>\<open>__dirname\<close>, the value \<^verbatim>\<open>Date.now()\<close>
  returns, the bucket name of the process environment, what the \<open>i\<close>-th fetch of a URL
  answers, what the encoder process does with a job (the event it emits, and the size of
  the output file it leaves, if it leaves one), and what the object store answers to an
  upload of a body of some size (an error message, or the location).
\<close>

record env =
  dirname :: path
  now :: nat
  bucket :: "string option"
  fetch :: "nat \<Rightarrow> string \<Rightarrow> fetch_result"
  encoder :: "job \<Rightarrow> encode_outcome \<times> nat option"
  s3_upload :: "upload_params \<Rightarrow> nat \<Rightarrow> string + string"

datatype jval = JBool bool | JStr string

text \<open>
  A response is a status with a JSON object (its fields in order), or a 200 response
  with \<^verbatim>\<open>Content-Type: video/mp4\<close> piped from a file of some size. When the file to pipe
  cannot be opened, the read stream's \<^verbatim>\<open>error\<close> event has no listener: the process
  ends, no body is sent and no \<^verbatim>\<open>close\<close> handler runs.
\<close>

datatype response =
    Json nat "(string \<times> jval) list"
  | Mp4Stream nat
  | Crashed

record outcome =
  resp :: response
  files :: fs
  events :: "event list"
  on_close :: "path option"

text \<open>The encoder runs: its call is recorded and the file it leaves is written.\<close>

definition run_encoder :: "env \<Rightarrow> job \<Rightarrow> fs \<Rightarrow> encode_outcome \<times> fs" where
  "run_encoder e j f =
     (case encoder e j of
        (out, None) \<Rightarrow> (out, f)
      | (out, Some n) \<Rightarrow>
          (case write_file f (outputPath j) n of
             Inl _ \<Rightarrow> (out, f)
           | Inr f' \<Rightarrow> (out, f')))"

subsection \<open>The text-overlay server\<close>

record text_request =
  title :: "string option"
  backgroundVideoUrl :: "string option"
  videoId :: "string option"

definition TMP_DIR :: "path \<Rightarrow> path" where
  "TMP_DIR d = path_join d ''temp''"

text \<open>Module start: the shared directory is created when it is missing.\<close>

definition text_server_init :: "path \<Rightarrow> fs \<Rightarrow> string + fs" where
  "text_server_init d f =
     (if \<not> existsSync f (TMP_DIR d) then mkdirSync f (TMP_DIR d) else Inr f)"

definition outputFileName :: "text_request \<Rightarrow> string" where
  "outputFileName r = template_str (videoId r) @ ''-final-video.mp4''"

definition text_outputPath :: "path \<Rightarrow> text_request \<Rightarrow> path" where
  "text_outputPath d r = path_join (TMP_DIR d) (outputFileName r)"

definition bgVideoPath :: "path \<Rightarrow> path" where
  "bgVideoPath d = path_join (TMP_DIR d) ''bg.mp4''"

definition drawtext_prefix :: string where
  "drawtext_prefix = ''-vf drawtext=text='' @ [quote_c]"

definition drawtext_suffix :: string where
  "drawtext_suffix = quote_c #
     '':fontsize=50:fontcolor=white:x=(w-text_w)/2:y=h-th-50:box=1:boxcolor=black@0.5:boxborderw=10''"

definition drawtext_option :: "string option \<Rightarrow> string" where
  "drawtext_option t = drawtext_prefix @ template_str t @ drawtext_suffix"

definition text_job :: "path \<Rightarrow> text_request \<Rightarrow> job" where
  "text_job d r =
     \<lparr> inputs = [(bgVideoPath d, None)],
       complexFilter = [],
       maps = [],
       videoCodec = Some ''libx264'',
       audioCodec = Some ''aac'',
       outputOptions = [drawtext_option (title r), ''-pix_fmt yuv420p''],
       outputPath = text_outputPath d r \<rparr>"

definition text_uploadParams :: "env \<Rightarrow> text_request \<Rightarrow> upload_params" where
  "text_uploadParams e r =
     \<lparr> Bucket = bucket e, Key = outputFileName r,
       ContentType = ''video/mp4'', ACL = ''public-read'' \<rparr>"

text \<open>
  The body of the \<^verbatim>\<open>try\<close> block: the file system and the calls so far come back on
  every path; \<open>Inl\<close> is the message of the exception thrown, \<open>Inr\<close> the location the
  upload returned. No download is made before the encoder is started. The upload reads
  the output file through a stream, and is rejected when the file cannot be opened.
\<close>

definition text_try :: "env \<Rightarrow> text_request \<Rightarrow> fs \<Rightarrow> (string + string) \<times> fs \<times> event list" where
  "text_try e r f =
     (let j = text_job (dirname e) r;
          finalVideoPath = outputPath j
      in case run_encoder e j f of
           (Error msg, f1) \<Rightarrow> (Inl (''FFmpeg failed: '' @ msg), f1, [EncodeEv j])
         | (End, f1) \<Rightarrow>
             (let p = text_uploadParams e r; evs = [EncodeEv j, UploadEv p]
              in case f1 finalVideoPath of
                   None \<Rightarrow> (Inl ''ENOENT'', f1, evs)
                 | Some Dir \<Rightarrow> (Inl ''EISDIR'', f1, evs)
                 | Some (File n) \<Rightarrow>
                     (case s3_upload e p n of
                        Inl msg \<Rightarrow> (Inl msg, f1, evs)
                      | Inr location \<Rightarrow>
                          (case unlinkSync f1 finalVideoPath of
                             Inl msg \<Rightarrow> (Inl msg, f1, evs)
                           | Inr f2 \<Rightarrow> (Inr location, f2, evs)))))"

definition render_text :: "env \<Rightarrow> text_request \<Rightarrow> fs \<Rightarrow> outcome" where
  "render_text e r f =
     (if falsy (backgroundVideoUrl r) \<or> falsy (videoId r) then
        \<lparr> resp = Json 400 [(''success'', JBool False),
                            (''error'', JStr ''Missing background video URL or videoId.'')],
          files = f, events = [], on_close = None \<rparr>
      else
        (case text_try e r f of
           (Inr location, f', evs) \<Rightarrow>
             \<lparr> resp = Json 200 [(''success'', JBool True), (''videoUrl'', JStr location)],
               files = f', events = evs, on_close = None \<rparr>
         | (Inl msg, f', evs) \<Rightarrow>
             \<lparr> resp = Json 500 [(''success'', JBool False),
                                 (''error'', JStr (''Video rendering failed: '' @ msg))],
               files = f', events = evs, on_close = None \<rparr>))"

subsection \<open>The image-sequence server\<close>

record image_request =
  images :: "string list option"
  captions :: "string list option"

definition workDir :: "path \<Rightarrow> nat \<Rightarrow> path" where
  "workDir d t = path_join d (''temp-'' @ show_nat t)"

definition imgPath :: "path \<Rightarrow> nat \<Rightarrow> path" where
  "imgPath w i = path_join w (''image-'' @ show_nat i @ ''.jpg'')"

definition image_outputPath :: "path \<Rightarrow> path" where
  "image_outputPath w = path_join w ''output.mp4''"

text \<open>
  The download loop from index \<open>i\<close> on: one fetch after the other, the first failure is
  thrown. The write stream is opened on the image path and the response body is piped
  into it; a body that breaks off leaves what was written. The result lists the paths
  pushed onto \<^verbatim>\<open>imagePaths\<close>, in order.
\<close>

fun download :: "env \<Rightarrow> path \<Rightarrow> nat \<Rightarrow> string list \<Rightarrow> fs \<Rightarrow> (string + path list) \<times> fs \<times> event list" where
  "download e w i [] f = (Inr [], f, [])"
| "download e w i (u # us) f =
     (case fetch e i u of
        NetworkError msg \<Rightarrow> (Inl msg, f, [FetchEv i u])
      | HttpResponse ok body \<Rightarrow>
          if \<not> ok then (Inl (''Failed to fetch image '' @ show_nat i), f, [FetchEv i u])
          else
            (case body of
               Broken n msg \<Rightarrow>
                 (case write_file f (imgPath w i) n of
                    Inl m \<Rightarrow> (Inl m, f, [FetchEv i u])
                  | Inr f1 \<Rightarrow> (Inl msg, f1, [FetchEv i u]))
             | Complete n \<Rightarrow>
                 (case write_file f (imgPath w i) n of
                    Inl m \<Rightarrow> (Inl m, f, [FetchEv i u])
                  | Inr f1 \<Rightarrow>
                      (case download e w (Suc i) us f1 of
                         (Inl m, f2, evs) \<Rightarrow> (Inl m, f2, FetchEv i u # evs)
                       | (Inr ps, f2, evs) \<Rightarrow> (Inr (imgPath w i # ps), f2, FetchEv i u # evs)))))"

text \<open>The filter text written for input \<open>i\<close>, and the label it gives its output.\<close>

definition vlabel :: "nat \<Rightarrow> string" where
  "vlabel i = ''[v'' @ show_nat i @ '']''"

definition scale_pad :: "nat \<Rightarrow> string" where
  "scale_pad i = ''['' @ show_nat i @
     '':v]scale=1080:1920:force_original_aspect_ratio=decrease,pad=1080:1920:(ow-iw)/2:(oh-ih)/2[v''
     @ show_nat i @ ''];''"

definition concat_node :: "nat \<Rightarrow> string" where
  "concat_node n = concat (map vlabel [0..<n]) @ ''concat=n='' @ show_nat n @ '':v=1:a=0[v]''"

text \<open>
  The array given to \<^verbatim>\<open>complexFilter\<close>. The spread operator is applied to the joined
  scale-and-pad text, a string, so that text enters the array character by character;
  the concat node is the last element.
\<close>

definition filter_specs :: "nat \<Rightarrow> string list" where
  "filter_specs n = map (\<lambda>c. [c]) (concat (map scale_pad [0..<n])) @ [concat_node n]"

definition image_job :: "path \<Rightarrow> path list \<Rightarrow> job" where
  "image_job w imagePaths =
     \<lparr> inputs = map (\<lambda>p. (p, Some 3)) imagePaths,
       complexFilter = filter_specs (length imagePaths),
       maps = [''[v]''],
       videoCodec = Some ''libx264'',
       audioCodec = None,
       outputOptions = [''-pix_fmt yuv420p'',
                        ''-t '' @ show_nat (length imagePaths * 3),
                        ''-preset ultrafast''],
       outputPath = image_outputPath w \<rparr>"

text \<open>
  The \<^verbatim>\<open>try\<close> block after validation. \<open>Inl\<close> is the message of the exception thrown;
  \<open>Inr\<close> is the response once the output file is being piped, the cleanup then waits
  for the stream's \<^verbatim>\<open>close\<close> event.
\<close>

definition image_try :: "env \<Rightarrow> string list \<Rightarrow> fs \<Rightarrow> (string + response) \<times> fs \<times> event list" where
  "image_try e imgs f =
     (let w = workDir (dirname e) (now e)
      in case (if \<not> existsSync f w then mkdirSync f w else Inr f) of
           Inl m \<Rightarrow> (Inl m, f, [])
         | Inr f0 \<Rightarrow>
             (case download e w 0 imgs f0 of
                (Inl m, f1, evs) \<Rightarrow> (Inl m, f1, evs)
              | (Inr imagePaths, f1, evs) \<Rightarrow>
                  (let j = image_job w imagePaths
                   in case run_encoder e j f1 of
                        (Error msg, f2) \<Rightarrow> (Inl msg, f2, evs @ [EncodeEv j])
                      | (End, f2) \<Rightarrow>
                          (case f2 (outputPath j) of
                             Some (File n) \<Rightarrow> (Inr (Mp4Stream n), f2, evs @ [EncodeEv j])
                           | _ \<Rightarrow> (Inr Crashed, f2, evs @ [EncodeEv j])))))"

definition render_image :: "env \<Rightarrow> image_request \<Rightarrow> fs \<Rightarrow> outcome" where
  "render_image e r f =
     (let w = workDir (dirname e) (now e)
      in case images r of
           None \<Rightarrow>
             \<lparr> resp = Json 400 [(''error'', JStr ''No images provided'')],
               files = f, events = [], on_close = None \<rparr>
         | Some [] \<Rightarrow>
             \<lparr> resp = Json 400 [(''error'', JStr ''No images provided'')],
               files = f, events = [], on_close = None \<rparr>
         | Some imgs \<Rightarrow>
             (case image_try e imgs f of
                (Inr Crashed, f', evs) \<Rightarrow>
                  \<lparr> resp = Crashed, files = f', events = evs, on_close = None \<rparr>
              | (Inr r', f', evs) \<Rightarrow>
                  \<lparr> resp = r', files = f', events = evs, on_close = Some w \<rparr>
              | (Inl msg, f', evs) \<Rightarrow>
                  \<lparr> resp = Json 500 [(''error'', JStr msg)],
                    files = (if existsSync f' w then rmSync f' w else f'),
                    events = evs, on_close = None \<rparr>))"

text \<open>The read stream's \<^verbatim>\<open>close\<close> event: the pending cleanup runs.\<close>

definition stream_close :: "outcome \<Rightarrow> outcome" where
  "stream_close out =
     (case on_close out of
        None \<Rightarrow> out
      | Some w \<Rightarrow> out\<lparr> files := rmSync (files out) w, on_close := None \<rparr>)"

subsection \<open>Observations on an outcome\<close>

text \<open>The encoder jobs among the external calls, in order.\<close>

definition encode_jobs :: "event list \<Rightarrow> job list" where
  "encode_jobs evs = concat (map (\<lambda>ev. case ev of EncodeEv j \<Rightarrow> [j] | _ \<Rightarrow> []) evs)"

text \<open>
  The description of a job apart from its paths: the loop argument of each input, the
  filter array, the mapped labels, the codecs and the output options.
\<close>

definition job_shape ::
  "job \<Rightarrow> nat option list \<times> string list \<times> string list \<times> string option \<times> string option \<times> string list" where
  "job_shape j =
     (map snd (inputs j), complexFilter j, maps j, videoCodec j, audioCodec j, outputOptions j)"

text \<open>
  The escaping the specification asks for: a colon, a quote or a backslash of the
  caption is preceded by a backslash.
\<close>

definition special :: "char \<Rightarrow> bool" where
  "special c = (c = colon_c \<or> c = quote_c \<or> c = backslash_c)"

definition spec_escape :: "string \<Rightarrow> string" where
  "spec_escape s = concat (map (\<lambda>c. if special c then [backslash_c, c] else [c]) s)"

text \<open>
  The uniform envelope of the specification: a JSON object with the fields
  \<^verbatim>\<open>success\<close> and \<^verbatim>\<open>videoUrl\<close> when \<^verbatim>\<open>success\<close> is true, and \<^verbatim>\<open>success\<close> and
  \<^verbatim>\<open>error\<close> when it is false.
\<close>

fun is_envelope :: "response \<Rightarrow> bool" where
  "is_envelope (Json s [(k1, JBool b), (k2, JStr v)]) =
     (k1 = ''success'' \<and> k2 = (if b then ''videoUrl'' else ''error''))"
| "is_envelope _ = False"

definition has_field :: "string \<Rightarrow> response \<Rightarrow> bool" where
  "has_field k r = (case r of Json s body \<Rightarrow> k \<in> fst ` set body | _ \<Rightarrow> False)"

subsection \<open>Example requests and environments\<close>

text \<open>
  The two end-to-end scenarios of the specification, scenario A with a quote in its
  title, an image request without images, a file system holding the
  application directory and its \<^verbatim>\<open>temp\<close> directory, and environments in which every
  collaborator succeeds, the upload is refused, the encoder fails, the encoder leaves an
  empty file, and the second image is not found.
\<close>

definition reqA :: text_request where
  "reqA = \<lparr> title = Some ''Hello'', backgroundVideoUrl = Some ''https://x/bg.mp4'',
      videoId = Some ''v1'' \<rparr>"

definition req_quote :: text_request where
  "req_quote = reqA \<lparr> title := Some ''it's'' \<rparr>"

definition req_none :: image_request where
  "req_none = \<lparr> images = None, captions = None \<rparr>"

definition reqB :: image_request where
  "reqB = \<lparr> images = Some [''a.jpg'', ''b.jpg'', ''c.jpg''],
      captions = Some [''one'', ''two'', ''three''] \<rparr>"

definition fs_app :: fs where
  "fs_app = [[''app''] \<mapsto> Dir, [''app'', ''temp''] \<mapsto> Dir]"

definition env_ok :: env where
  "env_ok = \<lparr> dirname = [''app''], now = 1700000000000, bucket = Some ''bucket'',
      fetch = (\<lambda>i u. HttpResponse True (Complete 1000)),
      encoder = (\<lambda>j. (End, Some 5000)),
      s3_upload = (\<lambda>p n. Inr (''https://bucket/'' @ Key p)) \<rparr>"

definition env_upload_denied :: env where
  "env_upload_denied = env_ok \<lparr> s3_upload := (\<lambda>p n. Inl ''Access Denied'') \<rparr>"

definition env_encode_error :: env where
  "env_encode_error = env_ok \<lparr> encoder := (\<lambda>j. (Error ''ffmpeg exited with code 1'', Some 5000)) \<rparr>"

definition env_empty_output :: env where
  "env_empty_output = env_ok \<lparr> encoder := (\<lambda>j. (End, Some 0)) \<rparr>"

definition env_404 :: env where
  "env_404 = env_ok \<lparr> fetch := (\<lambda>i u. HttpResponse (i \<noteq> 1) (Complete 1000)) \<rparr>"

text \<open>A second request arriving in the same millisecond, with another remote host.\<close>

definition env_same_ms :: env where
  "env_same_ms = env_ok \<lparr> fetch := (\<lambda>i u. HttpResponse True (Complete 2000)) \<rparr>"

text \<open>The same server one millisecond later.\<close>

definition env_later :: env where
  "env_later = env_ok \<lparr> now := 1700000000001 \<rparr>"

section \<open>Properties\<close>

subsection \<open>Decimal rendering and paths\<close>

lemma digit_inj: "a < 10 \<Longrightarrow> b < 10 \<Longrightarrow> digit a = digit b \<Longrightarrow> a = b"
proof -
  assume a: "a < 10" and b: "b < 10" and e: "digit a = digit b"
  have da: "a \<in> {0,1,2,3,4,5,6,7,8,9}" using a by auto
  have db: "b \<in> {0,1,2,3,4,5,6,7,8,9}" using b by auto
  show ?thesis using da db e by (auto simp: digit_def)
qed

lemma digit_not_sep: "d < 10 \<Longrightarrow> digit d \<noteq> CHR ''/''"
proof -
  assume a: "d < 10"
  have da: "d \<in> {0,1,2,3,4,5,6,7,8,9}" using a by auto
  show ?thesis using da by (auto simp: digit_def)
qed

lemma show_nat_nonempty: "show_nat n \<noteq> []"
  by (subst show_nat.simps) simp

lemma show_nat_no_sep: "CHR ''/'' \<notin> set (show_nat n)"
proof (induction n rule: show_nat.induct)
  case (1 n)
  show ?case
  proof (cases "n < 10")
    case True
    then show ?thesis by (subst show_nat.simps) (simp add: digit_not_sep [symmetric] digit_not_sep)
  next
    case False
    with 1 show ?thesis
      using digit_not_sep [of "n mod 10"] by (subst show_nat.simps) auto
  qed
qed

lemma show_nat_inj: "show_nat n = show_nat m \<Longrightarrow> n = m"
proof (induction n arbitrary: m rule: show_nat.induct)
  case (1 n)
  show ?case
  proof (cases "n < 10")
    case n: True
    show ?thesis
    proof (cases "m < 10")
      case True
      with n "1.prems" show ?thesis
        by (simp add: show_nat.simps [of n] show_nat.simps [of m] digit_inj)
    next
      case False
      with n "1.prems" show ?thesis
        using show_nat_nonempty [of "m div 10"]
        by (simp add: show_nat.simps [of n] show_nat.simps [of m])
    qed
  next
    case n: False
    show ?thesis
    proof (cases "m < 10")
      case True
      with n "1.prems" show ?thesis
        using show_nat_nonempty [of "n div 10"]
        by (simp add: show_nat.simps [of n] show_nat.simps [of m])
    next
      case False
      with n "1.prems" have e: "show_nat (n div 10) = show_nat (m div 10)"
        and d: "digit (n mod 10) = digit (m mod 10)"
        by (simp_all add: show_nat.simps [of n] show_nat.simps [of m])
      from "1.IH" [OF n e] have q: "n div 10 = m div 10" .
      from d have r: "n mod 10 = m mod 10" by (intro digit_inj) simp_all
      from q r show ?thesis by (metis div_mult_mod_eq)
    qed
  qed
qed

lemma show_nat_now: "show_nat 1700000000000 = ''1700000000000''"
  by (simp add: show_nat.simps digit_def)

lemma show_nat_later: "show_nat 1700000000001 = ''1700000000001''"
  by (simp add: show_nat.simps digit_def)

lemma show_nat_small:
  "show_nat 0 = ''0''" "show_nat 1 = ''1''" "show_nat 2 = ''2''" "show_nat 3 = ''3''"
  "show_nat (Suc 0) = ''1''" "show_nat (Suc (Suc 0)) = ''2''" "show_nat 9 = ''9''" "show_nat 6 = ''6''"
  by (simp_all add: show_nat.simps digit_def)

lemma show_nat_3: "show_nat (Suc (Suc (Suc 0))) = ''3''"
  by (simp add: show_nat.simps digit_def)

lemma split_sep_plain: "CHR ''/'' \<notin> set s \<Longrightarrow> split_sep cur s = [rev cur @ s]"
  by (induction s arbitrary: cur) auto

lemma path_join_plain:
  "CHR ''/'' \<notin> set s \<Longrightarrow> s \<noteq> [] \<Longrightarrow> s \<noteq> ''.'' \<Longrightarrow> s \<noteq> ''..'' \<Longrightarrow> path_join d s = d @ [s]"
  by (simp add: path_join_def split_sep_plain)

lemma workDir_eq: "workDir d t = d @ [''temp-'' @ show_nat t]"
  unfolding workDir_def by (rule path_join_plain) (simp_all add: show_nat_no_sep)

lemma imgPath_eq: "imgPath w i = w @ [''image-'' @ show_nat i @ ''.jpg'']"
  unfolding imgPath_def by (rule path_join_plain) (simp_all add: show_nat_no_sep)

lemma image_outputPath_eq: "image_outputPath w = w @ [''output.mp4'']"
  unfolding image_outputPath_def by (rule path_join_plain) simp_all

lemma TMP_DIR_eq: "TMP_DIR d = d @ [''temp'']"
  unfolding TMP_DIR_def by (rule path_join_plain) simp_all

lemma bgVideoPath_eq: "bgVideoPath d = d @ [''temp'', ''bg.mp4'']"
  unfolding bgVideoPath_def TMP_DIR_eq by (simp add: path_join_plain)

lemma split_sep_nonempty: "split_sep cur s \<noteq> []"
  by (induction s arbitrary: cur) auto

lemma split_sep_last: "CHR ''/'' \<notin> set t \<Longrightarrow> \<exists>pre. last (split_sep cur (s @ t)) = pre @ t"
  by (induction s arbitrary: cur) (auto simp: split_sep_plain split_sep_nonempty)

lemma normalize_onto_last:
  "ss \<noteq> [] \<Longrightarrow> last ss \<noteq> [] \<Longrightarrow> last ss \<noteq> ''.'' \<Longrightarrow> last ss \<noteq> ''..'' \<Longrightarrow>
   normalize_onto acc ss \<noteq> [] \<and> last (normalize_onto acc ss) = last ss"
  by (induction ss arbitrary: acc) (auto split: if_splits)

lemma text_outputPath_last:
  "\<exists>pre. text_outputPath d r \<noteq> [] \<and> last (text_outputPath d r) = pre @ ''-final-video.mp4''"
proof -
  obtain pre where p: "last (split_sep [] (outputFileName r)) = pre @ ''-final-video.mp4''"
    unfolding outputFileName_def using split_sep_last [of "''-final-video.mp4''" "[]" "template_str (videoId r)"]
    by auto
  have "normalize_onto (rev (TMP_DIR d)) (split_sep [] (outputFileName r)) \<noteq> [] \<and>
     last (normalize_onto (rev (TMP_DIR d)) (split_sep [] (outputFileName r))) =
     last (split_sep [] (outputFileName r))"
    by (rule normalize_onto_last) (simp_all add: split_sep_nonempty p)
  then show ?thesis using p by (auto simp: text_outputPath_def path_join_def)
qed

lemma text_outputPath_not_bg: "text_outputPath d r \<noteq> bgVideoPath d"
proof
  assume e: "text_outputPath d r = bgVideoPath d"
  obtain pre where "last (text_outputPath d r) = pre @ ''-final-video.mp4''"
    using text_outputPath_last by blast
  with e have "''bg.mp4'' = pre @ ''-final-video.mp4''" by (simp add: bgVideoPath_eq)
  then have "length ''bg.mp4'' = length (pre @ ''-final-video.mp4'')" by (rule arg_cong)
  then show False by simp
qed

lemma text_outputPath_plain:
  "CHR ''/'' \<notin> set (template_str (videoId r)) \<Longrightarrow>
   text_outputPath d r = d @ [''temp'', template_str (videoId r) @ ''-final-video.mp4'']"
proof -
  assume a: "CHR ''/'' \<notin> set (template_str (videoId r))"
  have "path_join (d @ [''temp'']) (template_str (videoId r) @ ''-final-video.mp4'') =
      (d @ [''temp'']) @ [template_str (videoId r) @ ''-final-video.mp4'']"
  proof (rule path_join_plain)
    show "template_str (videoId r) @ ''-final-video.mp4'' \<noteq> ''.''"
      using arg_cong [of "template_str (videoId r) @ ''-final-video.mp4''" "''.''" length] by auto
    show "template_str (videoId r) @ ''-final-video.mp4'' \<noteq> ''..''"
      using arg_cong [of "template_str (videoId r) @ ''-final-video.mp4''" "''..''" length] by auto
  qed (use a in simp_all)
  then show ?thesis by (simp add: text_outputPath_def TMP_DIR_eq outputFileName_def)
qed

lemma workDir_inj: "workDir d t1 = workDir d t2 \<longleftrightarrow> t1 = t2"
  by (auto simp: workDir_eq dest: show_nat_inj)

lemma imgPath_inj: "imgPath w i = imgPath w k \<longleftrightarrow> i = k"
  by (auto simp: imgPath_eq dest: show_nat_inj)

lemma imgPath_workDir_inj:
  "imgPath (workDir d t1) i = imgPath (workDir d t2) k \<longleftrightarrow> t1 = t2 \<and> i = k"
  by (auto simp: imgPath_eq workDir_eq dest: show_nat_inj)

lemma workDir_nonempty: "workDir d t \<noteq> []"
  by (simp add: workDir_eq)

lemma image_outputPath_last: "last (image_outputPath w) = ''output.mp4''"
  by (simp add: image_outputPath_eq)

subsection \<open>Files and the encoder run\<close>

lemma encode_jobs_simps [simp]:
  "encode_jobs [] = []"
  "encode_jobs (EncodeEv j # evs) = j # encode_jobs evs"
  "encode_jobs (FetchEv i u # evs) = encode_jobs evs"
  "encode_jobs (UploadEv p # evs) = encode_jobs evs"
  "encode_jobs (xs @ ys) = encode_jobs xs @ encode_jobs ys"
  by (simp_all add: encode_jobs_def)

lemma write_file_mono: "write_file f p n = Inr f' \<Longrightarrow> f q \<noteq> None \<Longrightarrow> f' q \<noteq> None"
  by (auto simp: write_file_def split: if_splits)

lemma run_encoder_fst: "fst (run_encoder e j f) = fst (encoder e j)"
  by (simp add: run_encoder_def split: prod.splits option.splits sum.splits)

lemma run_encoder_other:
  "q \<noteq> outputPath j \<Longrightarrow> snd (run_encoder e j f) q = f q"
  by (auto simp: run_encoder_def write_file_def split: prod.splits option.splits sum.splits if_splits)

lemma run_encoder_mono: "f q \<noteq> None \<Longrightarrow> snd (run_encoder e j f) q \<noteq> None"
  by (auto simp: run_encoder_def split: prod.splits option.splits sum.splits dest: write_file_mono)

subsection \<open>The download loop\<close>

lemma download_no_encode: "download e w i us f = (res, f', evs) \<Longrightarrow> encode_jobs evs = []"
  by (induction us arbitrary: i f res f' evs)
     (auto split: fetch_result.splits if_splits body_outcome.splits sum.splits prod.splits)

lemma download_paths:
  "download e w i us f = (Inr ps, f', evs) \<Longrightarrow> ps = map (imgPath w) [i..<i + length us]"
proof (induction us arbitrary: i f ps f' evs)
  case Nil
  then show ?case by simp
next
  case (Cons u us)
  from Cons.prems obtain f1 ps' evs' where
    d: "download e w (Suc i) us f1 = (Inr ps', f', evs')" and p: "ps = imgPath w i # ps'"
    by (auto split: fetch_result.splits if_splits body_outcome.splits sum.splits prod.splits)
  from Cons.IH [OF d] have "ps' = map (imgPath w) [Suc i..<Suc i + length us]" .
  moreover have "[i..<i + length (u # us)] = i # [Suc i..<Suc i + length us]"
    by (simp add: upt_conv_Cons del: upt_Suc)
  ultimately show ?case using p by (simp del: upt_Suc)
qed

lemma download_not_ok:
  "k < length us \<Longrightarrow> fetch e (i + k) (us ! k) = HttpResponse False b \<Longrightarrow>
   \<exists>m. fst (download e w i us f) = Inl m"
proof (induction us arbitrary: i k f)
  case Nil
  then show ?case by simp
next
  case (Cons u us)
  show ?case
  proof (cases k)
    case 0
    with Cons.prems show ?thesis by simp
  next
    case (Suc k')
    with Cons.prems have k: "k' < length us" and
      fk: "fetch e (Suc i + k') (us ! k') = HttpResponse False b" by simp_all
    have ih: "\<And>f1. \<exists>m. fst (download e w (Suc i) us f1) = Inl m"
      using Cons.IH [OF k fk] by blast
    show ?thesis
    proof (cases "fetch e i u")
      case (NetworkError m)
      then show ?thesis by simp
    next
      case (HttpResponse ok body)
      show ?thesis
      proof (cases ok)
        case False
        with HttpResponse show ?thesis by simp
      next
        case True
        show ?thesis
        proof (cases body)
          case (Broken n m)
          with HttpResponse True show ?thesis by (simp split: sum.splits)
        next
          case (Complete n)
          show ?thesis
          proof (cases "write_file f (imgPath w i) n")
            case (Inl m)
            with HttpResponse True Complete show ?thesis by simp
          next
            case (Inr f1)
            from ih [of f1] obtain m where "fst (download e w (Suc i) us f1) = Inl m" ..
            with HttpResponse True Complete Inr show ?thesis
              by (cases "download e w (Suc i) us f1") (auto split: sum.splits)
          qed
        qed
      qed
    qed
  qed
qed

lemma download_mono: "f q \<noteq> None \<Longrightarrow> fst (snd (download e w i us f)) q \<noteq> None"
proof (induction us arbitrary: i f)
  case Nil
  then show ?case by simp
next
  case (Cons u us)
  show ?case
  proof (cases "fetch e i u")
    case (NetworkError m)
    with Cons.prems show ?thesis by simp
  next
    case (HttpResponse ok body)
    show ?thesis
    proof (cases "ok")
      case False
      with HttpResponse Cons.prems show ?thesis by simp
    next
      case True
      show ?thesis
      proof (cases body)
        case (Broken n m)
        with HttpResponse True Cons.prems show ?thesis
          by (auto split: sum.splits dest: write_file_mono)
      next
        case (Complete n)
        show ?thesis
        proof (cases "write_file f (imgPath w i) n")
          case (Inl m)
          with HttpResponse True Complete Cons.prems show ?thesis by simp
        next
          case (Inr f1)
          from write_file_mono [OF Inr Cons.prems] have f1: "f1 q \<noteq> None" .
          have "fst (snd (download e w (Suc i) us f1)) q \<noteq> None"
            using f1 by (rule Cons.IH)
          with HttpResponse True Complete Inr show ?thesis
            by (cases "download e w (Suc i) us f1") (auto split: sum.splits)
        qed
      qed
    qed
  qed
qed

subsection \<open>Jobs and their options\<close>

lemma filter_specs_last: "last (filter_specs n) = concat_node n"
  by (simp add: filter_specs_def)

lemma filter_specs_butlast: "concat (butlast (filter_specs n)) = concat (map scale_pad [0..<n])"
  by (simp add: filter_specs_def butlast_append)

lemma concat_node_length: "1 < length (concat_node n)"
  by (simp add: concat_node_def)

lemma filter_specs_multi: "filter (\<lambda>s. length s \<noteq> 1) (filter_specs n) = [concat_node n]"
proof -
  have "filter (\<lambda>s. length s \<noteq> 1) (map (\<lambda>c. [c]) xs) = []" for xs :: string
    by (induction xs) simp_all
  moreover have "length (concat_node n) \<noteq> 1" using concat_node_length [of n] by simp
  ultimately show ?thesis by (simp add: filter_specs_def)
qed

lemma image_job_shape:
  "job_shape (image_job w ps) =
     (replicate (length ps) (Some 3), filter_specs (length ps), [''[v]''], Some ''libx264'', None,
      [''-pix_fmt yuv420p'', ''-t '' @ show_nat (length ps * 3), ''-preset ultrafast''])"
  by (simp add: job_shape_def image_job_def comp_def map_replicate_const)

lemma text_job_shape:
  "job_shape (text_job d r) =
     ([None], [], [], Some ''libx264'', Some ''aac'',
      [drawtext_option (title r), ''-pix_fmt yuv420p''])"
  by (simp add: job_shape_def text_job_def)

lemma spec_escape_plain: "\<forall>c \<in> set s. \<not> special c \<Longrightarrow> spec_escape s = s"
  by (induction s) (simp_all add: spec_escape_def)

lemma count_quote_plain: "\<forall>c \<in> set s. \<not> special c \<Longrightarrow> count_list s quote_c = 0"
  by (induction s) (auto simp: special_def)

lemma count_quote_prefix: "count_list drawtext_prefix quote_c = 1"
  by (simp add: drawtext_prefix_def quote_c_def)

lemma count_quote_suffix: "count_list drawtext_suffix quote_c = 1"
  by (simp add: drawtext_suffix_def quote_c_def)

lemma count_list_app: "count_list (xs @ ys) a = count_list xs a + count_list ys a"
  by (induction xs) simp_all

subsection \<open>The image-sequence handler\<close>

lemma image_try_events:
  "encode_jobs (snd (snd (image_try e imgs f))) = [] \<or>
   encode_jobs (snd (snd (image_try e imgs f))) =
     [image_job (workDir (dirname e) (now e))
        (map (imgPath (workDir (dirname e) (now e))) [0..<length imgs])]"
proof -
  let ?w = "workDir (dirname e) (now e)"
  show ?thesis
  proof (cases "if \<not> existsSync f ?w then mkdirSync f ?w else Inr f")
    case (Inl m)
    then show ?thesis by (simp add: image_try_def)
  next
    case (Inr f0)
    obtain res f1 evs where d: "download e ?w 0 imgs f0 = (res, f1, evs)"
      by (cases "download e ?w 0 imgs f0") auto
    have ne: "encode_jobs evs = []" using d by (rule download_no_encode)
    show ?thesis
    proof (cases res)
      case (Inl m)
      with Inr d ne show ?thesis by (simp add: image_try_def)
    next
      case r: (Inr ps)
      with d have ps: "ps = map (imgPath ?w) [0..<length imgs]"
        using download_paths [of e ?w 0 imgs f0 ps f1 evs] by simp
      from Inr d r ne ps show ?thesis
        by (simp add: image_try_def Let_def
            split: prod.splits encode_outcome.splits option.splits node.splits)
    qed
  qed
qed

lemma render_image_events:
  "events (render_image e r f) =
     (case images r of None \<Rightarrow> [] | Some [] \<Rightarrow> []
      | Some imgs \<Rightarrow> snd (snd (image_try e imgs f)))"
  by (simp add: render_image_def Let_def
      split: option.splits list.splits prod.splits sum.splits response.splits)

lemma render_image_jobs:
  assumes "images r = Some imgs"
  shows "encode_jobs (events (render_image e r f)) = [] \<or>
     encode_jobs (events (render_image e r f)) =
       [image_job (workDir (dirname e) (now e))
          (map (imgPath (workDir (dirname e) (now e))) [0..<length imgs])]"
  using assms image_try_events [of e imgs f]
  by (cases imgs) (simp_all add: render_image_events)

lemma image_try_not_ok:
  assumes "i < length imgs" and "fetch e i (imgs ! i) = HttpResponse False b"
  shows "\<exists>m. fst (image_try e imgs f) = Inl m \<and> encode_jobs (snd (snd (image_try e imgs f))) = []"
proof -
  let ?w = "workDir (dirname e) (now e)"
  show ?thesis
  proof (cases "if \<not> existsSync f ?w then mkdirSync f ?w else Inr f")
    case (Inl m)
    then show ?thesis by (simp add: image_try_def)
  next
    case (Inr f0)
    from assms obtain m where m: "fst (download e ?w 0 imgs f0) = Inl m"
      using download_not_ok [of i imgs e 0 b ?w f0] by auto
    obtain res f1 evs where d: "download e ?w 0 imgs f0 = (res, f1, evs)"
      by (cases "download e ?w 0 imgs f0") auto
    from d have "encode_jobs evs = []" by (rule download_no_encode)
    with Inr m d show ?thesis by (simp add: image_try_def)
  qed
qed

lemma image_try_error:
  assumes "j \<in> set (encode_jobs (snd (snd (image_try e imgs f))))"
    and "fst (encoder e j) = Error msg"
  shows "fst (image_try e imgs f) = Inl msg"
proof -
  let ?w = "workDir (dirname e) (now e)"
  show ?thesis
  proof (cases "if \<not> existsSync f ?w then mkdirSync f ?w else Inr f")
    case (Inl m)
    with assms(1) show ?thesis by (simp add: image_try_def)
  next
    case (Inr f0)
    obtain res f1 evs where d: "download e ?w 0 imgs f0 = (res, f1, evs)"
      by (cases "download e ?w 0 imgs f0") auto
    have ne: "encode_jobs evs = []" using d by (rule download_no_encode)
    show ?thesis
    proof (cases res)
      case (Inl m)
      with Inr d ne assms(1) show ?thesis by (simp add: image_try_def)
    next
      case r: (Inr ps)
      obtain out f2 where re: "run_encoder e (image_job ?w ps) f1 = (out, f2)"
        by (cases "run_encoder e (image_job ?w ps) f1") auto
      from Inr d r ne re assms(1) have j: "j = image_job ?w ps"
        by (cases out)
           (auto simp: image_try_def Let_def split: option.splits node.splits)
      from re have "out = fst (encoder e (image_job ?w ps))"
        using run_encoder_fst [of e "image_job ?w ps" f1] by simp
      with assms(2) j have "out = Error msg" by simp
      with Inr d r re show ?thesis by (simp add: image_try_def Let_def)
    qed
  qed
qed

lemma image_try_stream:
  assumes "fst (image_try e imgs f) = Inr r'"
  shows "\<exists>j \<in> set (encode_jobs (snd (snd (image_try e imgs f)))). fst (encoder e j) = End"
proof -
  let ?w = "workDir (dirname e) (now e)"
  show ?thesis
  proof (cases "if \<not> existsSync f ?w then mkdirSync f ?w else Inr f")
    case (Inl m)
    with assms show ?thesis by (simp add: image_try_def)
  next
    case (Inr f0)
    obtain res f1 evs where d: "download e ?w 0 imgs f0 = (res, f1, evs)"
      by (cases "download e ?w 0 imgs f0") auto
    show ?thesis
    proof (cases res)
      case (Inl m)
      with Inr d assms show ?thesis by (simp add: image_try_def)
    next
      case r: (Inr ps)
      obtain out f2 where re: "run_encoder e (image_job ?w ps) f1 = (out, f2)"
        by (cases "run_encoder e (image_job ?w ps) f1") auto
      from re have o: "out = fst (encoder e (image_job ?w ps))"
        using run_encoder_fst [of e "image_job ?w ps" f1] by simp
      show ?thesis
      proof (cases out)
        case (Error m)
        with Inr d r re assms show ?thesis by (simp add: image_try_def Let_def)
      next
        case End
        with Inr d r re o show ?thesis
          by (simp add: image_try_def Let_def split: option.splits node.splits)
      qed
    qed
  qed
qed

lemma render_image_error:
  assumes "j \<in> set (encode_jobs (events (render_image e r f)))"
    and "fst (encoder e j) = Error msg"
  shows "resp (render_image e r f) = Json 500 [(''error'', JStr msg)]"
proof -
  from assms(1) obtain u us where i: "images r = Some (u # us)"
    by (cases "images r"; cases "the (images r)") (auto simp: render_image_events)
  with assms(1) have "j \<in> set (encode_jobs (snd (snd (image_try e (u # us) f))))"
    by (simp add: render_image_events)
  from image_try_error [OF this assms(2)] obtain f' evs where
    "image_try e (u # us) f = (Inl msg, f', evs)"
    by (cases "image_try e (u # us) f") auto
  with i show ?thesis by (simp add: render_image_def Let_def)
qed

lemma render_image_stream:
  assumes "resp (render_image e r f) = Mp4Stream n"
  shows "\<exists>j \<in> set (encode_jobs (events (render_image e r f))). fst (encoder e j) = End"
proof -
  from assms obtain u us where i: "images r = Some (u # us)"
    by (cases "images r"; cases "the (images r)") (auto simp: render_image_def)
  obtain res f' evs where t: "image_try e (u # us) f = (res, f', evs)"
    by (cases "image_try e (u # us) f") auto
  with assms i obtain r' where "res = Inr r'"
    by (cases res) (auto simp: render_image_def Let_def)
  with t have "fst (image_try e (u # us) f) = Inr r'" by simp
  from image_try_stream [OF this] i show ?thesis by (simp add: render_image_events)
qed

lemma image_try_not_json: "fst (image_try e imgs f) \<noteq> Inr (Json s b)"
  by (auto simp: image_try_def Let_def
      split: sum.splits prod.splits encode_outcome.splits option.splits node.splits)

lemma render_image_json:
  "resp (render_image e r f) = Json s body \<Longrightarrow>
   (s = 400 \<or> s = 500) \<and> (\<exists>m. body = [(''error'', JStr m)])"
proof -
  assume a: "resp (render_image e r f) = Json s body"
  have t: "\<And>imgs. \<forall>s' b'. fst (image_try e imgs f) \<noteq> Inr (Json s' b')"
    by (auto simp: image_try_def Let_def
        split: sum.splits prod.splits encode_outcome.splits option.splits node.splits)
  show ?thesis
  proof (cases "images r")
    case None
    with a show ?thesis by (auto simp: render_image_def)
  next
    case (Some imgs)
    show ?thesis
    proof (cases imgs)
      case Nil
      with a Some show ?thesis by (auto simp: render_image_def)
    next
      case (Cons u us)
      obtain res f' evs where i: "image_try e (u # us) f = (res, f', evs)"
        by (cases "image_try e (u # us) f") auto
      from t [of "u # us"] i have "\<forall>s' b'. res \<noteq> Inr (Json s' b')" by simp
      with a Some Cons i show ?thesis
        by (auto simp: render_image_def Let_def split: sum.splits response.splits)
    qed
  qed
qed

lemma image_try_workDir:
  "snd (snd (image_try e imgs f)) = [] \<and> fst (snd (image_try e imgs f)) = f
   \<or> fst (snd (image_try e imgs f)) (workDir (dirname e) (now e)) \<noteq> None"
proof -
  let ?w = "workDir (dirname e) (now e)"
  show ?thesis
  proof (cases "if \<not> existsSync f ?w then mkdirSync f ?w else Inr f")
    case (Inl m)
    then show ?thesis by (simp add: image_try_def)
  next
    case (Inr f0)
    then have f0: "f0 ?w \<noteq> None"
      by (auto simp: existsSync_def mkdirSync_def workDir_nonempty split: if_splits)
    obtain res f1 evs where d: "download e ?w 0 imgs f0 = (res, f1, evs)"
      by (cases "download e ?w 0 imgs f0") auto
    have "fst (snd (download e ?w 0 imgs f0)) ?w \<noteq> None"
      using f0 by (rule download_mono)
    with d have f1: "f1 ?w \<noteq> None" by simp
    show ?thesis
    proof (cases res)
      case (Inl m)
      with Inr d f1 show ?thesis by (simp add: image_try_def)
    next
      case r: (Inr ps)
      obtain out f2 where re: "run_encoder e (image_job ?w ps) f1 = (out, f2)"
        by (cases "run_encoder e (image_job ?w ps) f1") auto
      have "snd (run_encoder e (image_job ?w ps) f1) ?w \<noteq> None"
        using f1 by (rule run_encoder_mono)
      with re have "f2 ?w \<noteq> None" by simp
      with Inr d r re show ?thesis
        by (cases out) (auto simp: image_try_def Let_def split: option.splits node.splits)
    qed
  qed
qed

lemma render_image_failure_cleanup:
  assumes "resp (render_image e r f) = Json s body"
  shows "files (render_image e r f) = f \<and> events (render_image e r f) = []
    \<or> (\<forall>q. prefix (workDir (dirname e) (now e)) q \<longrightarrow> files (render_image e r f) q = None)"
proof (cases "images r")
  case None
  then show ?thesis by (simp add: render_image_def)
next
  case (Some imgs)
  show ?thesis
  proof (cases imgs)
    case Nil
    with Some show ?thesis by (simp add: render_image_def)
  next
    case (Cons u us)
    obtain res f' evs where t: "image_try e (u # us) f = (res, f', evs)"
      by (cases "image_try e (u # us) f") auto
    from image_try_not_json [of e "u # us" f] t have "\<And>s' b'. res \<noteq> Inr (Json s' b')"
      by simp
    with assms Some Cons t obtain m where m: "res = Inl m"
      by (cases res) (auto simp: render_image_def Let_def split: response.splits)
    from image_try_workDir [of e "u # us" f] t
    have "evs = [] \<and> f' = f \<or> f' (workDir (dirname e) (now e)) \<noteq> None" by simp
    then show ?thesis
    proof
      assume "evs = [] \<and> f' = f"
      with Some Cons t m show ?thesis
        by (auto simp: render_image_def Let_def rmSync_def)
    next
      assume "f' (workDir (dirname e) (now e)) \<noteq> None"
      with Some Cons t m show ?thesis
        by (simp add: render_image_def Let_def rmSync_def existsSync_def)
    qed
  qed
qed

lemma render_image_stream_cleanup:
  assumes "resp (render_image e r f) = Mp4Stream n"
  shows "\<forall>q. prefix (workDir (dirname e) (now e)) q \<longrightarrow>
    files (stream_close (render_image e r f)) q = None"
proof -
  from assms have "on_close (render_image e r f) = Some (workDir (dirname e) (now e))"
    by (auto simp: render_image_def Let_def
        split: option.splits list.splits prod.splits sum.splits response.splits)
  then show ?thesis by (simp add: stream_close_def rmSync_def)
qed

subsection \<open>The text-overlay handler\<close>

lemma render_text_events:
  "encode_jobs (events (render_text e r f)) = [] \<or>
   encode_jobs (events (render_text e r f)) = [text_job (dirname e) r]"
  by (simp add: render_text_def text_try_def Let_def
      split: prod.splits sum.splits encode_outcome.splits option.splits node.splits)

lemma render_text_envelope: "is_envelope (resp (render_text e t f))"
  by (simp add: render_text_def split: prod.splits sum.splits)

lemma render_text_error:
  assumes "\<not> falsy (backgroundVideoUrl t)" and "\<not> falsy (videoId t)"
    and "fst (encoder e (text_job (dirname e) t)) = Error msg"
  shows "resp (render_text e t f) =
     Json 500 [(''success'', JBool False),
               (''error'', JStr (''Video rendering failed: FFmpeg failed: '' @ msg))]"
proof -
  from assms(3) have "fst (run_encoder e (text_job (dirname e) t) f) = Error msg"
    by (simp add: run_encoder_fst)
  then obtain f1 where "run_encoder e (text_job (dirname e) t) f = (Error msg, f1)"
    by (cases "run_encoder e (text_job (dirname e) t) f") auto
  with assms(1,2) show ?thesis
    by (simp add: render_text_def text_try_def Let_def)
qed

lemma render_text_success:
  assumes "resp (render_text e t f) = Json 200 body"
  shows "fst (encoder e (text_job (dirname e) t)) = End"
proof (cases "fst (encoder e (text_job (dirname e) t))")
  case End
  then show ?thesis .
next
  case (Error msg)
  then have "fst (run_encoder e (text_job (dirname e) t) f) = Error msg"
    by (simp add: run_encoder_fst)
  then obtain f1 where "run_encoder e (text_job (dirname e) t) f = (Error msg, f1)"
    by (cases "run_encoder e (text_job (dirname e) t) f") auto
  with assms show ?thesis
    by (simp add: render_text_def text_try_def Let_def split: if_splits)
qed

lemma text_try_events_fetch: "FetchEv i u \<notin> set (snd (snd (text_try e t f)))"
  by (simp add: text_try_def Let_def
      split: prod.splits sum.splits encode_outcome.splits option.splits node.splits)

lemma text_try_other:
  assumes "q \<noteq> text_outputPath (dirname e) t"
  shows "fst (snd (text_try e t f)) q = f q"
proof -
  let ?j = "text_job (dirname e) t"
  have o: "outputPath ?j = text_outputPath (dirname e) t" by (simp add: text_job_def)
  obtain out f1 where r: "run_encoder e ?j f = (out, f1)"
    by (cases "run_encoder e ?j f") auto
  from run_encoder_other [of q ?j e f] assms o r have f1: "f1 q = f q" by simp
  from r f1 assms o show ?thesis
    by (auto simp: text_try_def Let_def unlinkSync_def
        split: encode_outcome.splits option.splits node.splits sum.splits)
qed

lemma render_text_files:
  "files (render_text e t f) =
     (if falsy (backgroundVideoUrl t) \<or> falsy (videoId t) then f else fst (snd (text_try e t f)))"
  by (simp add: render_text_def split: prod.splits sum.splits)

lemma render_text_events_eq:
  "events (render_text e t f) =
     (if falsy (backgroundVideoUrl t) \<or> falsy (videoId t) then [] else snd (snd (text_try e t f)))"
  by (simp add: render_text_def split: prod.splits sum.splits)

subsection \<open>The handlers on the example requests\<close>

lemmas eval_defs = Let_def render_image_def image_try_def image_job_def render_text_def text_try_def
  run_encoder_def workDir_eq imgPath_eq image_outputPath_eq TMP_DIR_eq bgVideoPath_eq
  text_outputPath_plain text_job_def text_uploadParams_def outputFileName_def template_str_def
  falsy_def show_nat_now show_nat_small existsSync_def mkdirSync_def write_file_def is_dir_def
  unlinkSync_def rmSync_def stream_close_def

lemma render_image_ok_jobs:
  "encode_jobs (events (render_image env_ok reqB fs_app)) =
     [image_job [''app'', ''temp-1700000000000'']
        [[''app'', ''temp-1700000000000'', ''image-0.jpg''],
         [''app'', ''temp-1700000000000'', ''image-1.jpg''],
         [''app'', ''temp-1700000000000'', ''image-2.jpg'']]]"
  by (simp add: eval_defs env_ok_def fs_app_def reqB_def)

lemma render_image_ok_resp: "resp (render_image env_ok reqB fs_app) = Mp4Stream 5000"
  by (simp add: eval_defs env_ok_def fs_app_def reqB_def)

lemma render_image_later_jobs:
  "encode_jobs (events (render_image env_later reqB fs_app)) =
     [image_job [''app'', ''temp-1700000000001'']
        [[''app'', ''temp-1700000000001'', ''image-0.jpg''],
         [''app'', ''temp-1700000000001'', ''image-1.jpg''],
         [''app'', ''temp-1700000000001'', ''image-2.jpg'']]]"
  by (simp add: eval_defs show_nat_later env_later_def env_ok_def fs_app_def reqB_def)

lemma render_image_same_ms_jobs:
  "encode_jobs (events (render_image env_same_ms reqB fs_app)) =
     [image_job [''app'', ''temp-1700000000000'']
        [[''app'', ''temp-1700000000000'', ''image-0.jpg''],
         [''app'', ''temp-1700000000000'', ''image-1.jpg''],
         [''app'', ''temp-1700000000000'', ''image-2.jpg'']]]"
  by (simp add: eval_defs env_same_ms_def env_ok_def fs_app_def reqB_def)

lemma render_image_404:
  "resp (render_image env_404 reqB fs_app) = Json 500 [(''error'', JStr ''Failed to fetch image 1'')]"
  by (simp add: eval_defs env_404_def env_ok_def fs_app_def reqB_def)

lemma render_image_none_resp:
  "resp (render_image env_ok req_none fs_app) = Json 400 [(''error'', JStr ''No images provided'')]"
  by (simp add: render_image_def req_none_def)

lemma render_image_empty_resp: "resp (render_image env_empty_output reqB fs_app) = Mp4Stream 0"
  by (simp add: eval_defs env_empty_output_def env_ok_def fs_app_def reqB_def)

lemma render_image_error_jobs:
  "encode_jobs (events (render_image env_encode_error reqB fs_app)) =
     [image_job [''app'', ''temp-1700000000000'']
        [[''app'', ''temp-1700000000000'', ''image-0.jpg''],
         [''app'', ''temp-1700000000000'', ''image-1.jpg''],
         [''app'', ''temp-1700000000000'', ''image-2.jpg'']]]"
  by (simp add: eval_defs env_encode_error_def env_ok_def fs_app_def reqB_def)

lemma render_text_ok_jobs:
  "encode_jobs (events (render_text env_ok reqA fs_app)) = [text_job [''app''] reqA]"
  by (simp add: eval_defs env_ok_def fs_app_def reqA_def)

lemma render_text_ok_events:
  "events (render_text env_ok reqA fs_app) =
     [EncodeEv (text_job [''app''] reqA), UploadEv (text_uploadParams env_ok reqA)]"
  by (simp add: eval_defs env_ok_def fs_app_def reqA_def)

lemma render_text_ok_resp:
  "resp (render_text env_ok reqA fs_app) =
     Json 200 [(''success'', JBool True), (''videoUrl'', JStr ''https://bucket/v1-final-video.mp4'')]"
  by (simp add: eval_defs env_ok_def fs_app_def reqA_def)

lemma render_text_ok_file:
  "files (render_text env_ok reqA fs_app) [''app'', ''temp'', ''v1-final-video.mp4''] = None"
  by (simp add: eval_defs env_ok_def fs_app_def reqA_def)

lemma render_text_later_jobs:
  "encode_jobs (events (render_text env_later reqA fs_app)) = [text_job [''app''] reqA]"
  by (simp add: eval_defs env_later_def env_ok_def fs_app_def reqA_def)

lemma render_text_quote_jobs:
  "encode_jobs (events (render_text env_ok req_quote fs_app)) = [text_job [''app''] req_quote]"
  by (simp add: eval_defs env_ok_def fs_app_def reqA_def req_quote_def)

lemma render_text_denied_resp:
  "resp (render_text env_upload_denied reqA fs_app) =
     Json 500 [(''success'', JBool False), (''error'', JStr ''Video rendering failed: Access Denied'')]"
  by (simp add: eval_defs env_upload_denied_def env_ok_def fs_app_def reqA_def)

lemma render_text_denied_file:
  "files (render_text env_upload_denied reqA fs_app) [''app'', ''temp'', ''v1-final-video.mp4''] =
     Some (File 5000)"
  by (simp add: eval_defs env_upload_denied_def env_ok_def fs_app_def reqA_def)

lemma render_text_empty_resp:
  "resp (render_text env_empty_output reqA fs_app) =
     Json 200 [(''success'', JBool True), (''videoUrl'', JStr ''https://bucket/v1-final-video.mp4'')]"
  by (simp add: eval_defs env_empty_output_def env_ok_def fs_app_def reqA_def)

lemma render_text_error_resp:
  "resp (render_text env_encode_error reqA fs_app) =
       Json 500 [(''success'', JBool False),
         (''error'', JStr ''Video rendering failed: FFmpeg failed: ffmpeg exited with code 1'')]"
  by (simp add: eval_defs env_encode_error_def env_ok_def fs_app_def reqA_def)

lemma render_text_error_file:
  "files (render_text env_encode_error reqA fs_app) [''app'', ''temp'', ''v1-final-video.mp4''] =
     Some (File 5000)"
  by (simp add: eval_defs env_encode_error_def env_ok_def fs_app_def reqA_def)

subsection \<open>Further properties of the handlers\<close>

lemma render_text_success_file:
  assumes "resp (render_text e t f) = Json 200 body"
  shows "\<exists>n. snd (run_encoder e (text_job (dirname e) t) f)
           (outputPath (text_job (dirname e) t)) = Some (File n)"
proof -
  let ?j = "text_job (dirname e) t"
  obtain out f1 where r: "run_encoder e ?j f = (out, f1)"
    by (cases "run_encoder e ?j f") auto
  with assms show ?thesis
    by (auto simp: render_text_def text_try_def Let_def
        split: if_splits encode_outcome.splits option.splits node.splits sum.splits)
qed

lemma image_try_stream_file:
  assumes "fst (image_try e imgs f) = Inr (Mp4Stream n)"
  shows "fst (snd (image_try e imgs f)) (image_outputPath (workDir (dirname e) (now e))) =
    Some (File n)"
proof -
  let ?w = "workDir (dirname e) (now e)"
  show ?thesis
  proof (cases "if \<not> existsSync f ?w then mkdirSync f ?w else Inr f")
    case (Inl m)
    with assms show ?thesis by (simp add: image_try_def)
  next
    case (Inr f0)
    obtain res f1 evs where d: "download e ?w 0 imgs f0 = (res, f1, evs)"
      by (cases "download e ?w 0 imgs f0") auto
    show ?thesis
    proof (cases res)
      case (Inl m)
      with Inr d assms show ?thesis by (simp add: image_try_def)
    next
      case r: (Inr ps)
      obtain out f2 where re: "run_encoder e (image_job ?w ps) f1 = (out, f2)"
        by (cases "run_encoder e (image_job ?w ps) f1") auto
      have o: "outputPath (image_job ?w ps) = image_outputPath ?w" by (simp add: image_job_def)
      from Inr d r re o assms show ?thesis
        by (cases out) (auto simp: image_try_def Let_def split: option.splits node.splits)
    qed
  qed
qed

lemma render_image_stream_file:
  assumes "resp (render_image e r f) = Mp4Stream n"
  shows "files (render_image e r f) (image_outputPath (workDir (dirname e) (now e))) =
    Some (File n)"
proof -
  from assms obtain u us where i: "images r = Some (u # us)"
    by (cases "images r"; cases "the (images r)") (auto simp: render_image_def)
  obtain res f' evs where t: "image_try e (u # us) f = (res, f', evs)"
    by (cases "image_try e (u # us) f") auto
  with assms i have res: "res = Inr (Mp4Stream n)"
    by (cases res) (auto simp: render_image_def Let_def split: response.splits)
  with t have "fst (image_try e (u # us) f) = Inr (Mp4Stream n)" by simp
  from image_try_stream_file [OF this] t res i show ?thesis
    by (simp add: render_image_def Let_def)
qed

lemma run_encoder_empty_file:
  "snd (run_encoder env_empty_output (text_job [''app''] reqA) fs_app)
     [''app'', ''temp'', ''v1-final-video.mp4''] = Some (File 0)"
  by (simp add: eval_defs env_empty_output_def env_ok_def fs_app_def reqA_def)

lemma render_image_empty_file:
  "files (render_image env_empty_output reqB fs_app)
     [''app'', ''temp-1700000000000'', ''output.mp4''] = Some (File 0)"
  by (simp add: eval_defs env_empty_output_def env_ok_def fs_app_def reqB_def)

lemma render_image_empty_jobs:
  "encode_jobs (events (render_image env_empty_output reqB fs_app)) =
     [image_job [''app'', ''temp-1700000000000'']
        [[''app'', ''temp-1700000000000'', ''image-0.jpg''],
         [''app'', ''temp-1700000000000'', ''image-1.jpg''],
         [''app'', ''temp-1700000000000'', ''image-2.jpg'']]]"
  by (simp add: eval_defs env_empty_output_def env_ok_def fs_app_def reqB_def)

lemma scale_pad_length: "1 < length (scale_pad i)"
  by (simp add: scale_pad_def)

lemma filter_specs_chars: "s \<in> set (butlast (filter_specs n)) \<Longrightarrow> length s = 1"
  by (auto simp: filter_specs_def butlast_append)

lemma filter_specs_no_scale_pad: "scale_pad i \<notin> set (filter_specs n)"
proof
  assume "scale_pad i \<in> set (filter_specs n)"
  then have "scale_pad i = concat_node n \<or> length (scale_pad i) = 1"
    by (auto simp: filter_specs_def)
  moreover have "scale_pad i \<noteq> concat_node n"
  proof
    assume "scale_pad i = concat_node n"
    then have "last (scale_pad i) = last (concat_node n)" by simp
    then show False by (simp add: scale_pad_def concat_node_def)
  qed
  ultimately show False using scale_pad_length [of i] by simp
qed

lemma scale_pad_0:
  "scale_pad 0 =
     ''[0:v]scale=1080:1920:force_original_aspect_ratio=decrease,pad=1080:1920:(ow-iw)/2:(oh-ih)/2[v0];''"
  by (simp add: scale_pad_def show_nat_small)

lemma render_image_ok_filter_head:
  "take 6 (complexFilter (hd (encode_jobs (events (render_image env_ok reqB fs_app))))) =
     [''['', ''0'', '':'', ''v'', '']'', ''s'']"
  by (simp add: render_image_ok_jobs image_job_def filter_specs_def scale_pad_def show_nat_small
      upt_rec [of 0])

lemma download_fetch_bound:
  "k < length us \<Longrightarrow> fetch e (i + k) (us ! k) = HttpResponse False b \<Longrightarrow>
   FetchEv k' u' \<in> set (snd (snd (download e w i us f))) \<Longrightarrow> k' \<le> i + k"
proof (induction us arbitrary: i k f)
  case Nil
  then show ?case by simp
next
  case (Cons u us)
  show ?case
  proof (cases k)
    case 0
    with Cons.prems show ?thesis by simp
  next
    case (Suc k0)
    with Cons.prems have k: "k0 < length us" and
      fk: "fetch e (Suc i + k0) (us ! k0) = HttpResponse False b" by simp_all
    have ih: "\<And>f1. FetchEv k' u' \<in> set (snd (snd (download e w (Suc i) us f1))) \<Longrightarrow>
        k' \<le> Suc i + k0"
      using Cons.IH [OF k fk] by blast
    show ?thesis
    proof (cases "fetch e i u")
      case (NetworkError m)
      with Cons.prems show ?thesis by simp
    next
      case (HttpResponse ok body)
      show ?thesis
      proof (cases ok)
        case False
        with HttpResponse Cons.prems show ?thesis by simp
      next
        case True
        show ?thesis
        proof (cases body)
          case (Broken n m)
          with HttpResponse True Cons.prems show ?thesis by (auto split: sum.splits)
        next
          case (Complete n)
          show ?thesis
          proof (cases "write_file f (imgPath w i) n")
            case (Inl m)
            with HttpResponse True Complete Cons.prems show ?thesis by simp
          next
            case (Inr f1)
            obtain res f2 evs where d: "download e w (Suc i) us f1 = (res, f2, evs)"
              by (cases "download e w (Suc i) us f1") auto
            with HttpResponse True Complete Inr Cons.prems(3)
            have "FetchEv k' u' = FetchEv i u \<or> FetchEv k' u' \<in> set evs"
              by (auto split: sum.splits)
            then show ?thesis
            proof
              assume "FetchEv k' u' = FetchEv i u"
              then show ?thesis by simp
            next
              assume "FetchEv k' u' \<in> set evs"
              with ih [of f1] d Suc show ?thesis by simp
            qed
          qed
        qed
      qed
    qed
  qed
qed

lemma imgPath_under: "strict_prefix w (imgPath w i)"
  by (simp add: imgPath_eq strict_prefix_def)

lemma write_image_ok:
  assumes "f w = Some Dir" and "\<forall>q. strict_prefix w q \<longrightarrow> f q \<noteq> Some Dir"
  shows "write_file f (imgPath w i) n = Inr (f(imgPath w i \<mapsto> File n))"
proof -
  have "f (imgPath w i) \<noteq> Some Dir" using assms(2) imgPath_under by blast
  moreover have "butlast (imgPath w i) = w" by (simp add: imgPath_eq)
  moreover have "imgPath w i \<noteq> []" by (simp add: imgPath_eq)
  ultimately show ?thesis using assms(1) by (simp add: write_file_def is_dir_def)
qed

lemma download_first_failure:
  assumes "f w = Some Dir" and "\<forall>q. strict_prefix w q \<longrightarrow> f q \<noteq> Some Dir"
    and "k < length us" and "fetch e (i + k) (us ! k) = HttpResponse False b"
    and "\<forall>k' < k. \<exists>n. fetch e (i + k') (us ! k') = HttpResponse True (Complete n)"
  shows "fst (download e w i us f) = Inl (''Failed to fetch image '' @ show_nat (i + k))
    \<and> snd (snd (download e w i us f)) = map (\<lambda>k'. FetchEv (i + k') (us ! k')) [0..<Suc k]"
  using assms
proof (induction us arbitrary: i k f)
  case Nil
  then show ?case by simp
next
  case (Cons u us)
  show ?case
  proof (cases k)
    case 0
    with Cons.prems show ?thesis by simp
  next
    case (Suc k0)
    from Cons.prems(5) Suc obtain n where f0: "fetch e i u = HttpResponse True (Complete n)"
      by force
    let ?f1 = "f(imgPath w i \<mapsto> File n)"
    have w: "write_file f (imgPath w i) n = Inr ?f1"
      using Cons.prems(1,2) by (rule write_image_ok)
    have a1: "?f1 w = Some Dir"
      using Cons.prems(1) imgPath_under [of w i] by (auto simp: strict_prefix_def)
    have a2: "\<forall>q. strict_prefix w q \<longrightarrow> ?f1 q \<noteq> Some Dir"
      using Cons.prems(2) by simp
    from Cons.prems(3) Suc have a3: "k0 < length us" by simp
    from Cons.prems(4) Suc have a4: "fetch e (Suc i + k0) (us ! k0) = HttpResponse False b" by simp
    have a5: "\<forall>k' < k0. \<exists>n. fetch e (Suc i + k') (us ! k') = HttpResponse True (Complete n)"
    proof (intro allI impI)
      fix k' assume "k' < k0"
      then have "Suc k' < k" using Suc by simp
      with Cons.prems(5) obtain n where
        "fetch e (i + Suc k') ((u # us) ! Suc k') = HttpResponse True (Complete n)" by blast
      then show "\<exists>n. fetch e (Suc i + k') (us ! k') = HttpResponse True (Complete n)" by simp
    qed
    from Cons.IH [OF a1 a2 a3 a4 a5]
    have r: "fst (download e w (Suc i) us ?f1) = Inl (''Failed to fetch image '' @ show_nat (Suc i + k0))"
      and ev: "snd (snd (download e w (Suc i) us ?f1)) =
        map (\<lambda>k'. FetchEv (Suc i + k') (us ! k')) [0..<Suc k0]" by blast+
    obtain res f2 evs where d: "download e w (Suc i) us ?f1 = (res, f2, evs)"
      by (cases "download e w (Suc i) us ?f1") auto
    from d r have res: "res = Inl (''Failed to fetch image '' @ show_nat (Suc i + k0))" by simp
    from d ev have evs: "evs = map (\<lambda>k'. FetchEv (Suc i + k') (us ! k')) [0..<Suc k0]" by simp
    have dl: "download e w i (u # us) f = (res, f2, FetchEv i u # evs)"
      using f0 w d res by simp
    have m: "map (\<lambda>k'. FetchEv (i + k') ((u # us) ! k')) [0..<Suc (Suc k0)] =
        FetchEv i u # map (\<lambda>k'. FetchEv (Suc i + k') (us ! k')) [0..<Suc k0]"
      by (simp only: map_upt_Suc [of _ "Suc k0"]) simp
    have g1: "fst (download e w i (u # us) f) =
        Inl (''Failed to fetch image '' @ show_nat (i + Suc k0))"
      using dl res by simp
    have g2: "snd (snd (download e w i (u # us) f)) =
        map (\<lambda>k'. FetchEv (i + k') ((u # us) ! k')) [0..<Suc (Suc k0)]"
      using dl evs by (simp only: m) simp
    from g1 g2 show ?thesis unfolding Suc by (rule conjI)
  qed
qed

lemma image_try_fetch_bound:
  assumes "i < length imgs" and "fetch e i (imgs ! i) = HttpResponse False b"
    and "FetchEv k u \<in> set (snd (snd (image_try e imgs f)))"
  shows "k \<le> i"
proof -
  let ?w = "workDir (dirname e) (now e)"
  show ?thesis
  proof (cases "if \<not> existsSync f ?w then mkdirSync f ?w else Inr f")
    case (Inl m)
    with assms(3) show ?thesis by (simp add: image_try_def)
  next
    case (Inr f0)
    obtain res f1 evs where d: "download e ?w 0 imgs f0 = (res, f1, evs)"
      by (cases "download e ?w 0 imgs f0") auto
    from assms(1,2) obtain m where "fst (download e ?w 0 imgs f0) = Inl m"
      using download_not_ok [of i imgs e 0 b ?w f0] by auto
    with d have res: "res = Inl m" by simp
    with Inr d assms(3) have "FetchEv k u \<in> set (snd (snd (download e ?w 0 imgs f0)))"
      by (simp add: image_try_def)
    with download_fetch_bound [of i imgs e 0 b k u ?w f0] assms(1,2) show ?thesis by simp
  qed
qed

lemma image_try_first_failure:
  assumes "is_dir f (dirname e)"
    and "\<forall>q. prefix (workDir (dirname e) (now e)) q \<longrightarrow> f q = None"
    and "i < length imgs" and "fetch e i (imgs ! i) = HttpResponse False b"
    and "\<forall>k < i. \<exists>n. fetch e k (imgs ! k) = HttpResponse True (Complete n)"
  shows "fst (image_try e imgs f) = Inl (''Failed to fetch image '' @ show_nat i)
    \<and> snd (snd (image_try e imgs f)) = map (\<lambda>k. FetchEv k (imgs ! k)) [0..<Suc i]"
proof -
  let ?w = "workDir (dirname e) (now e)"
  let ?f0 = "f(?w \<mapsto> Dir)"
  have wn: "?w \<noteq> []" by (rule workDir_nonempty)
  have fw: "f ?w = None" using assms(2) by simp
  have bl: "butlast ?w = dirname e" by (simp add: workDir_eq)
  have mk: "(if \<not> existsSync f ?w then mkdirSync f ?w else Inr f) = Inr ?f0"
    using wn fw bl assms(1) by (simp add: existsSync_def mkdirSync_def)
  have a1: "?f0 ?w = Some Dir" by simp
  have a2: "\<forall>q. strict_prefix ?w q \<longrightarrow> ?f0 q \<noteq> Some Dir"
    using assms(2) by (auto simp: strict_prefix_def)
  have a4: "fetch e (0 + i) (imgs ! i) = HttpResponse False b" using assms(4) by simp
  have a5: "\<forall>k < i. \<exists>n. fetch e (0 + k) (imgs ! k) = HttpResponse True (Complete n)"
    using assms(5) by simp
  from download_first_failure [OF a1 a2 assms(3) a4 a5]
  have r: "fst (download e ?w 0 imgs ?f0) = Inl (''Failed to fetch image '' @ show_nat i)"
    and ev: "snd (snd (download e ?w 0 imgs ?f0)) = map (\<lambda>k. FetchEv k (imgs ! k)) [0..<Suc i]"
    by (simp_all only: add_0)
  obtain res f1 evs where d: "download e ?w 0 imgs ?f0 = (res, f1, evs)"
    by (cases "download e ?w 0 imgs ?f0") auto
  from d r have res: "res = Inl (''Failed to fetch image '' @ show_nat i)" by simp
  from d ev have evs: "evs = map (\<lambda>k. FetchEv k (imgs ! k)) [0..<Suc i]" by simp
  have "image_try e imgs f = (Inl (''Failed to fetch image '' @ show_nat i), f1, evs)"
    using mk d res by (simp add: image_try_def del: fun_upd_apply)
  with evs show ?thesis by simp
qed

lemma render_text_invalid:
  "falsy (backgroundVideoUrl t) \<or> falsy (videoId t) \<Longrightarrow>
   resp (render_text e t f) =
     Json 400 [(''success'', JBool False),
               (''error'', JStr ''Missing background video URL or videoId.'')]"
  by (simp add: render_text_def)

lemma render_text_valid:
  "\<not> (falsy (backgroundVideoUrl t) \<or> falsy (videoId t)) \<Longrightarrow>
   (\<exists>loc. resp (render_text e t f) =
      Json 200 [(''success'', JBool True), (''videoUrl'', JStr loc)])
   \<or> (\<exists>m. resp (render_text e t f) =
      Json 500 [(''success'', JBool False), (''error'', JStr (''Video rendering failed: '' @ m))])"
  by (cases "text_try e t f") (auto simp: render_text_def split: sum.splits)

lemma render_text_flag:
  "resp (render_text e t f) = Json s [(''success'', JBool b), (k, v)] \<Longrightarrow> b = (s = 200)"
  using render_text_invalid [of t e f] render_text_valid [of t e f]
  by (cases "falsy (backgroundVideoUrl t) \<or> falsy (videoId t)") auto

lemma render_image_invalid:
  "images r = None \<or> images r = Some [] \<Longrightarrow>
   resp (render_image e r f) = Json 400 [(''error'', JStr ''No images provided'')]"
  by (auto simp: render_image_def)

lemma render_image_valid:
  "images r = Some (u # us) \<Longrightarrow>
   (\<exists>m. resp (render_image e r f) = Json 500 [(''error'', JStr m)])
   \<or> (\<exists>n. resp (render_image e r f) = Mp4Stream n)
   \<or> resp (render_image e r f) = Crashed"
  using image_try_not_json [of e "u # us" f]
  by (cases "image_try e (u # us) f")
     (auto simp: render_image_def Let_def split: sum.splits response.splits)

section \<open>The claims\<close>

text \<open>
  C1. The text-overlay server removes the output file only after a successful upload:
  for scenario A, when the upload is refused, and when the encoder fails after writing
  output, the request ends with a failure response and the output file, absent
  before the request, is still in the shared directory, with no cleanup pending.
\<close>

theorem text_failure_leaves_output:
  "fs_app [''app'', ''temp'', ''v1-final-video.mp4''] = None
   \<and> text_outputPath (dirname env_ok) reqA = [''app'', ''temp'', ''v1-final-video.mp4'']
   \<and> files (render_text env_ok reqA fs_app) [''app'', ''temp'', ''v1-final-video.mp4''] = None
   \<and> resp (render_text env_upload_denied reqA fs_app) =
       Json 500 [(''success'', JBool False), (''error'', JStr ''Video rendering failed: Access Denied'')]
   \<and> files (render_text env_upload_denied reqA fs_app) [''app'', ''temp'', ''v1-final-video.mp4''] =
       Some (File 5000)
   \<and> on_close (render_text env_upload_denied reqA fs_app) = None
   \<and> resp (render_text env_encode_error reqA fs_app) =
       Json 500 [(''success'', JBool False),
         (''error'', JStr ''Video rendering failed: FFmpeg failed: ffmpeg exited with code 1'')]
   \<and> files (render_text env_encode_error reqA fs_app) [''app'', ''temp'', ''v1-final-video.mp4''] =
       Some (File 5000)
   \<and> on_close (render_text env_encode_error reqA fs_app) = None"
proof -
  have a: "fs_app [''app'', ''temp'', ''v1-final-video.mp4''] = None" by (simp add: fs_app_def)
  have b: "text_outputPath (dirname env_ok) reqA = [''app'', ''temp'', ''v1-final-video.mp4'']"
    by (simp add: text_outputPath_plain reqA_def template_str_def env_ok_def)
  have c: "on_close (render_text e t f) = None" for e t f
    by (simp add: render_text_def split: prod.splits sum.splits)
  from a b c render_text_ok_file render_text_denied_resp render_text_denied_file
    render_text_error_resp render_text_error_file
  show ?thesis by (simp only:)
qed

text \<open>
  C2, as stated, fails: for the title \<^verbatim>\<open>it's\<close> the option given to the encoder is not
  the one built from the escaped title, and it holds three quote characters, so the
  quoted text value ends inside the title.
\<close>

theorem drawtext_escape_counterexample:
  "encode_jobs (events (render_text env_ok req_quote fs_app)) = [text_job [''app''] req_quote]
   \<and> hd (outputOptions (text_job [''app''] req_quote)) =
       drawtext_prefix @ ''it's'' @ drawtext_suffix
   \<and> hd (outputOptions (text_job [''app''] req_quote)) \<noteq>
       drawtext_prefix @ spec_escape ''it's'' @ drawtext_suffix
   \<and> count_list (hd (outputOptions (text_job [''app''] req_quote))) quote_c = 3"
proof -
  have o: "hd (outputOptions (text_job [''app''] req_quote)) =
      drawtext_prefix @ ''it's'' @ drawtext_suffix"
    by (simp add: text_job_def req_quote_def reqA_def drawtext_option_def template_str_def)
  have ne: "spec_escape ''it's'' \<noteq> ''it's''"
    by (simp add: spec_escape_def special_def quote_c_def colon_c_def backslash_c_def)
  have "count_list ''it's'' quote_c = 1" by (simp add: quote_c_def)
  then have c: "count_list (drawtext_prefix @ ''it's'' @ drawtext_suffix) quote_c = 3"
    by (simp only: count_list_app count_quote_prefix count_quote_suffix)
  from ne have d: "drawtext_prefix @ ''it's'' @ drawtext_suffix \<noteq>
      drawtext_prefix @ spec_escape ''it's'' @ drawtext_suffix"
    by (simp only: same_append_eq append_same_eq)
  show ?thesis
  proof (intro conjI)
    show "encode_jobs (events (render_text env_ok req_quote fs_app)) = [text_job [''app''] req_quote]"
      by (rule render_text_quote_jobs)
    show "hd (outputOptions (text_job [''app''] req_quote)) =
        drawtext_prefix @ ''it's'' @ drawtext_suffix"
      by (rule o)
    show "hd (outputOptions (text_job [''app''] req_quote)) \<noteq>
        drawtext_prefix @ spec_escape ''it's'' @ drawtext_suffix"
      unfolding o by (rule d)
    show "count_list (hd (outputOptions (text_job [''app''] req_quote))) quote_c = 3"
      unfolding o by (rule c)
  qed
qed

text \<open>
  C2, amended. The first output option of a text-overlay job is the text
  \<^verbatim>\<open>-vf drawtext=text='\<close>, then the title as it came in the request, character for
  character, then \<^verbatim>\<open>':fontsize=50:\<close>\<dots>; nothing is escaped. For a title without a
  colon, a quote or a backslash this is the option built from the escaped title, and
  it holds exactly the two quote characters around the title.
\<close>

theorem drawtext_verbatim:
  "outputOptions (text_job d r) =
     [drawtext_prefix @ template_str (title r) @ drawtext_suffix, ''-pix_fmt yuv420p'']
   \<and> ((\<forall>c \<in> set (template_str (title r)). \<not> special c) \<longrightarrow>
        hd (outputOptions (text_job d r)) =
          drawtext_prefix @ spec_escape (template_str (title r)) @ drawtext_suffix
        \<and> count_list (hd (outputOptions (text_job d r))) quote_c = 2)"
  by (simp add: text_job_def drawtext_option_def spec_escape_plain count_list_app
      count_quote_prefix count_quote_suffix count_quote_plain)

theorem drawtext_verbatim_witness:
  "filter special (template_str (title reqA)) = []
   \<and> hd (outputOptions (text_job [''app''] reqA)) =
       drawtext_prefix @ spec_escape (template_str (title reqA)) @ drawtext_suffix
   \<and> count_list (hd (outputOptions (text_job [''app''] reqA))) quote_c = 2"
proof -
  have a: "filter special (template_str (title reqA)) = []"
    by (simp add: reqA_def template_str_def special_def colon_c_def quote_c_def backslash_c_def)
  then have "\<forall>c \<in> set (template_str (title reqA)). \<not> special c"
    by (simp add: filter_empty_conv)
  with drawtext_verbatim [of "[''app'']" reqA] a show ?thesis by blast
qed

text \<open>
  C3, as stated, fails: two image-sequence requests that read the same millisecond
  from the clock (here answered by different remote hosts) work in the same directory,
  on the same image paths and the same output path; and two text-overlay requests with
  different bodies give the encoder the same input path.
\<close>

theorem workspace_collision_counterexample:
  "fetch env_ok 0 ''a.jpg'' \<noteq> fetch env_same_ms 0 ''a.jpg''
   \<and> workDir (dirname env_ok) (now env_ok) = workDir (dirname env_same_ms) (now env_same_ms)
   \<and> map inputs (encode_jobs (events (render_image env_ok reqB fs_app))) =
     map inputs (encode_jobs (events (render_image env_same_ms reqB fs_app)))
   \<and> map outputPath (encode_jobs (events (render_image env_ok reqB fs_app))) =
     map outputPath (encode_jobs (events (render_image env_same_ms reqB fs_app)))
   \<and> reqA \<noteq> req_quote
   \<and> inputs (text_job (dirname env_ok) reqA) = inputs (text_job (dirname env_ok) req_quote)"
proof (intro conjI)
  show "fetch env_ok 0 ''a.jpg'' \<noteq> fetch env_same_ms 0 ''a.jpg''"
    by (simp add: env_same_ms_def env_ok_def)
  show "workDir (dirname env_ok) (now env_ok) = workDir (dirname env_same_ms) (now env_same_ms)"
    by (simp add: env_same_ms_def env_ok_def)
  show "map inputs (encode_jobs (events (render_image env_ok reqB fs_app))) =
     map inputs (encode_jobs (events (render_image env_same_ms reqB fs_app)))"
    by (simp only: render_image_ok_jobs render_image_same_ms_jobs)
  show "map outputPath (encode_jobs (events (render_image env_ok reqB fs_app))) =
     map outputPath (encode_jobs (events (render_image env_same_ms reqB fs_app)))"
    by (simp only: render_image_ok_jobs render_image_same_ms_jobs)
  have "title reqA \<noteq> title req_quote" by (simp add: reqA_def req_quote_def)
  then show "reqA \<noteq> req_quote" by auto
  show "inputs (text_job (dirname env_ok) reqA) = inputs (text_job (dirname env_ok) req_quote)"
    by (simp add: text_job_def)
qed

text \<open>
  C3, amended. Under one server directory, two image-sequence requests have the same
  workspace directory exactly when they read the same value from the clock, and an
  image path of one is an image path of the other exactly when, in addition, the image
  indices agree. All text-overlay requests work in the one directory \<^verbatim>\<open>temp\<close> and
  give the encoder the same input path \<^verbatim>\<open>temp/bg.mp4\<close>; for video identifiers
  without a path separator, two requests have the same output path exactly when their
  identifiers are equal.
\<close>

theorem workspace_paths:
  "(workDir d t1 = workDir d t2 \<longleftrightarrow> t1 = t2)
   \<and> (imgPath (workDir d t1) i = imgPath (workDir d t2) k \<longleftrightarrow> t1 = t2 \<and> i = k)
   \<and> inputs (text_job d r1) = [(d @ [''temp'', ''bg.mp4''], None)]
   \<and> inputs (text_job d r1) = inputs (text_job d r2)
   \<and> (CHR ''/'' \<notin> set (template_str (videoId r1)) \<and> CHR ''/'' \<notin> set (template_str (videoId r2)) \<longrightarrow>
        (outputPath (text_job d r1) = outputPath (text_job d r2)
           \<longleftrightarrow> template_str (videoId r1) = template_str (videoId r2)))"
  by (simp add: workDir_inj imgPath_workDir_inj text_job_def bgVideoPath_eq text_outputPath_plain)

theorem workspace_paths_witness:
  "workDir [''app''] 1700000000000 \<noteq> workDir [''app''] 1700000000001
   \<and> CHR ''/'' \<notin> set (template_str (videoId reqA))
   \<and> CHR ''/'' \<notin> set (template_str (videoId req_quote))
   \<and> outputPath (text_job [''app''] reqA) = outputPath (text_job [''app''] req_quote)"
proof -
  have a: "CHR ''/'' \<notin> set (template_str (videoId reqA))"
    by (simp add: reqA_def template_str_def)
  have b: "CHR ''/'' \<notin> set (template_str (videoId req_quote))"
    by (simp add: reqA_def req_quote_def template_str_def)
  have c: "template_str (videoId reqA) = template_str (videoId req_quote)"
    by (simp add: reqA_def req_quote_def)
  have d: "(1700000000000::nat) \<noteq> 1700000000001" by simp
  from workspace_paths [of "[''app'']" 1700000000000 1700000000001 0 0 reqA req_quote] a b c d
  show ?thesis by blast
qed

text \<open>
  C4, as stated, fails: when the encoder reports completion and leaves an output file
  of size zero, the text-overlay server uploads it and answers with the success
  envelope, and the image-sequence server streams it as \<^verbatim>\<open>video/mp4\<close>.
\<close>

theorem encode_success_counterexample:
  "encoder env_empty_output (text_job [''app''] reqA) = (End, Some 0)
   \<and> resp (render_text env_empty_output reqA fs_app) =
       Json 200 [(''success'', JBool True), (''videoUrl'', JStr ''https://bucket/v1-final-video.mp4'')]
   \<and> resp (render_image env_empty_output reqB fs_app) = Mp4Stream 0"
  by (simp add: render_text_empty_resp render_image_empty_resp)
     (simp add: env_empty_output_def env_ok_def)

text \<open>
  C4, amended. A success response is given only when the encoder reported completion
  for the request's job and a file is at the job's output path once the encoder has
  run; the size of that file is not examined, so an empty file is published. When the
  encoder reports an error, the request ends with the status 500 and a failure body
  that carries the encoder's message (after the text
  \<^verbatim>\<open>Video rendering failed: FFmpeg failed: \<close> in the text-overlay server, alone in the
  image-sequence server), whatever files exist, an output file included.
\<close>

theorem encode_outcome_and_file:
  "(\<not> falsy (backgroundVideoUrl t) \<and> \<not> falsy (videoId t)
      \<and> fst (encoder e (text_job (dirname e) t)) = Error msg \<longrightarrow>
      resp (render_text e t f) =
        Json 500 [(''success'', JBool False),
                  (''error'', JStr (''Video rendering failed: FFmpeg failed: '' @ msg))])
   \<and> (\<forall>body. resp (render_text e t f) = Json 200 body \<longrightarrow>
        fst (encoder e (text_job (dirname e) t)) = End
        \<and> (\<exists>n. snd (run_encoder e (text_job (dirname e) t) f)
                   (outputPath (text_job (dirname e) t)) = Some (File n)))
   \<and> (\<forall>j \<in> set (encode_jobs (events (render_image e r f))).
        fst (encoder e j) = Error msg \<longrightarrow>
        resp (render_image e r f) = Json 500 [(''error'', JStr msg)])
   \<and> (\<forall>n. resp (render_image e r f) = Mp4Stream n \<longrightarrow>
        (\<exists>j \<in> set (encode_jobs (events (render_image e r f))).
           fst (encoder e j) = End \<and> files (render_image e r f) (outputPath j) = Some (File n)))"
proof (intro conjI allI impI ballI)
  assume "\<not> falsy (backgroundVideoUrl t) \<and> \<not> falsy (videoId t)
      \<and> fst (encoder e (text_job (dirname e) t)) = Error msg"
  then show "resp (render_text e t f) =
        Json 500 [(''success'', JBool False),
                  (''error'', JStr (''Video rendering failed: FFmpeg failed: '' @ msg))]"
    using render_text_error [of t e msg f] by blast
next
  fix body assume "resp (render_text e t f) = Json 200 body"
  then show "fst (encoder e (text_job (dirname e) t)) = End" by (rule render_text_success)
next
  fix body assume "resp (render_text e t f) = Json 200 body"
  then show "\<exists>n. snd (run_encoder e (text_job (dirname e) t) f)
                   (outputPath (text_job (dirname e) t)) = Some (File n)"
    by (rule render_text_success_file)
next
  fix j assume "j \<in> set (encode_jobs (events (render_image e r f)))"
    and "fst (encoder e j) = Error msg"
  then show "resp (render_image e r f) = Json 500 [(''error'', JStr msg)]"
    by (rule render_image_error)
next
  fix n assume a: "resp (render_image e r f) = Mp4Stream n"
  from render_image_stream [OF a] obtain j where
    j: "j \<in> set (encode_jobs (events (render_image e r f)))" and en: "fst (encoder e j) = End"
    by blast
  from j obtain imgs where i: "images r = Some imgs"
    by (cases "images r") (auto simp: render_image_events)
  from render_image_jobs [OF i, of e f] j
  have "outputPath j = image_outputPath (workDir (dirname e) (now e))"
    by (auto simp: image_job_def)
  with render_image_stream_file [OF a] j en
  show "\<exists>j \<in> set (encode_jobs (events (render_image e r f))).
           fst (encoder e j) = End \<and> files (render_image e r f) (outputPath j) = Some (File n)"
    by auto
qed

theorem encode_outcome_and_file_witness:
  "\<not> falsy (backgroundVideoUrl reqA) \<and> \<not> falsy (videoId reqA)
   \<and> fst (encoder env_encode_error (text_job (dirname env_encode_error) reqA)) =
       Error ''ffmpeg exited with code 1''
   \<and> resp (render_text env_encode_error reqA fs_app) =
       Json 500 [(''success'', JBool False),
         (''error'', JStr ''Video rendering failed: FFmpeg failed: ffmpeg exited with code 1'')]
   \<and> hd (encode_jobs (events (render_image env_encode_error reqB fs_app)))
       \<in> set (encode_jobs (events (render_image env_encode_error reqB fs_app)))
   \<and> resp (render_image env_encode_error reqB fs_app) =
       Json 500 [(''error'', JStr ''ffmpeg exited with code 1'')]
   \<and> resp (render_text env_empty_output reqA fs_app) =
       Json 200 [(''success'', JBool True), (''videoUrl'', JStr ''https://bucket/v1-final-video.mp4'')]
   \<and> fst (encoder env_empty_output (text_job (dirname env_empty_output) reqA)) = End
   \<and> snd (run_encoder env_empty_output (text_job [''app''] reqA) fs_app)
       [''app'', ''temp'', ''v1-final-video.mp4''] = Some (File 0)
   \<and> resp (render_image env_empty_output reqB fs_app) = Mp4Stream 0
   \<and> files (render_image env_empty_output reqB fs_app)
       [''app'', ''temp-1700000000000'', ''output.mp4''] = Some (File 0)"
proof -
  let ?j = "hd (encode_jobs (events (render_image env_encode_error reqB fs_app)))"
  have a: "\<not> falsy (backgroundVideoUrl reqA)" "\<not> falsy (videoId reqA)"
    by (simp_all add: reqA_def falsy_def)
  have b: "fst (encoder env_encode_error (text_job (dirname env_encode_error) reqA)) =
       Error ''ffmpeg exited with code 1''"
    by (simp add: env_encode_error_def env_ok_def)
  have c: "?j \<in> set (encode_jobs (events (render_image env_encode_error reqB fs_app)))"
    by (simp add: render_image_error_jobs)
  have d: "fst (encoder env_encode_error ?j) = Error ''ffmpeg exited with code 1''"
    by (simp add: env_encode_error_def env_ok_def)
  note err = encode_outcome_and_file
    [of reqA env_encode_error "''ffmpeg exited with code 1''" fs_app reqB]
  note suc = encode_outcome_and_file [of reqA env_empty_output "[]" fs_app reqB]
  from err a b have 1: "resp (render_text env_encode_error reqA fs_app) =
       Json 500 [(''success'', JBool False),
         (''error'', JStr ''Video rendering failed: FFmpeg failed: ffmpeg exited with code 1'')]"
    by simp
  from err c d have 2: "resp (render_image env_encode_error reqB fs_app) =
       Json 500 [(''error'', JStr ''ffmpeg exited with code 1'')]" by blast
  from suc render_text_empty_resp
  have 3: "fst (encoder env_empty_output (text_job (dirname env_empty_output) reqA)) = End"
    by blast
  from a b c 1 2 3 render_text_empty_resp run_encoder_empty_file render_image_empty_resp
    render_image_empty_file
  show ?thesis by (intro conjI)
qed

text \<open>
  C5. The job of an image-sequence request has the downloaded images as inputs in
  request order, each looped with the duration 3, declares the total duration
  \<^verbatim>\<open>-t\<close> \<open>N \<times> 3\<close>, and ends its filter array with the concat node over the labels
  \<^verbatim>\<open>[v0]\<close> \<dots> \<^verbatim>\<open>[v(N-1)]\<close> in ordinal order. But the streams these labels name are
  not in the job: the spread operator is applied to the joined scale-and-pad text, so
  every element of the array before the concat node is a single character, and no
  element is the scale-and-pad node of any input.
\<close>

theorem image_filter_array_split:
  assumes "images r = Some imgs"
    and "j \<in> set (encode_jobs (events (render_image e r f)))"
  shows "inputs j = map (\<lambda>i. (imgPath (workDir (dirname e) (now e)) i, Some 3)) [0..<length imgs]
    \<and> outputOptions j =
        [''-pix_fmt yuv420p'', ''-t '' @ show_nat (length imgs * 3), ''-preset ultrafast'']
    \<and> last (complexFilter j) =
        concat (map vlabel [0..<length imgs]) @ ''concat=n='' @ show_nat (length imgs) @ '':v=1:a=0[v]''
    \<and> (\<forall>i. scale_pad i \<notin> set (complexFilter j))
    \<and> (\<forall>s \<in> set (butlast (complexFilter j)). length s = 1)
    \<and> concat (butlast (complexFilter j)) = concat (map scale_pad [0..<length imgs])
    \<and> length (complexFilter j) = Suc (length (concat (map scale_pad [0..<length imgs])))
    \<and> 1 \<le> length imgs"
proof -
  let ?w = "workDir (dirname e) (now e)"
  from render_image_jobs [OF assms(1), of e f] assms(2)
  have j: "j = image_job ?w (map (imgPath ?w) [0..<length imgs])" by auto
  have ne: "imgs \<noteq> []"
    using assms by (auto simp: render_image_events)
  have 1: "inputs j = map (\<lambda>i. (imgPath ?w i, Some 3)) [0..<length imgs]"
    by (simp add: j image_job_def comp_def)
  have 2: "outputOptions j =
      [''-pix_fmt yuv420p'', ''-t '' @ show_nat (length imgs * 3), ''-preset ultrafast'']"
    by (simp add: j image_job_def)
  have cf: "complexFilter j = filter_specs (length imgs)"
    by (simp add: j image_job_def)
  have 3: "last (complexFilter j) =
        concat (map vlabel [0..<length imgs]) @ ''concat=n='' @ show_nat (length imgs) @ '':v=1:a=0[v]''"
    by (simp only: cf filter_specs_last concat_node_def append_assoc)
  have 4: "\<forall>i. scale_pad i \<notin> set (complexFilter j)"
    by (simp only: cf filter_specs_no_scale_pad simp_thms)
  have 5: "\<forall>s \<in> set (butlast (complexFilter j)). length s = 1"
    using filter_specs_chars [of _ "length imgs"] by (simp only: cf) blast
  have 6: "concat (butlast (complexFilter j)) = concat (map scale_pad [0..<length imgs])"
    by (simp only: cf filter_specs_butlast)
  have 7: "length (complexFilter j) = Suc (length (concat (map scale_pad [0..<length imgs])))"
    by (simp add: cf filter_specs_def)
  have 8: "1 \<le> length imgs" using ne by (cases imgs) simp_all
  from 1 2 3 4 5 6 7 8 show ?thesis by (intro conjI)
qed

theorem image_filter_array_split_witness:
  "images reqB = Some [''a.jpg'', ''b.jpg'', ''c.jpg'']
   \<and> hd (encode_jobs (events (render_image env_ok reqB fs_app)))
        \<in> set (encode_jobs (events (render_image env_ok reqB fs_app)))
   \<and> scale_pad 0 =
     ''[0:v]scale=1080:1920:force_original_aspect_ratio=decrease,pad=1080:1920:(ow-iw)/2:(oh-ih)/2[v0];''
   \<and> scale_pad 0 \<notin> set (complexFilter (hd (encode_jobs (events (render_image env_ok reqB fs_app)))))
   \<and> take 6 (complexFilter (hd (encode_jobs (events (render_image env_ok reqB fs_app))))) =
        [''['', ''0'', '':'', ''v'', '']'', ''s'']
   \<and> last (complexFilter (hd (encode_jobs (events (render_image env_ok reqB fs_app))))) =
        ''[v0][v1][v2]concat=n=3:v=1:a=0[v]''
   \<and> outputOptions (hd (encode_jobs (events (render_image env_ok reqB fs_app)))) =
        [''-pix_fmt yuv420p'', ''-t 9'', ''-preset ultrafast'']"
proof -
  let ?j = "hd (encode_jobs (events (render_image env_ok reqB fs_app)))"
  have a: "images reqB = Some [''a.jpg'', ''b.jpg'', ''c.jpg'']" by (simp add: reqB_def)
  have b: "?j \<in> set (encode_jobs (events (render_image env_ok reqB fs_app)))"
    by (simp add: render_image_ok_jobs)
  have up: "[0..<3] = [0, 1, 2]" by (simp add: upt_rec)
  note t = image_filter_array_split [OF a b]
  from t have 1: "scale_pad 0 \<notin> set (complexFilter ?j)" by blast
  from t have 2: "last (complexFilter ?j) = ''[v0][v1][v2]concat=n=3:v=1:a=0[v]''"
    by (simp add: show_nat_small show_nat_3 up vlabel_def)
  from t have 3: "outputOptions ?j = [''-pix_fmt yuv420p'', ''-t 9'', ''-preset ultrafast'']"
    by (simp add: show_nat_small)
  from a b scale_pad_0 1 render_image_ok_filter_head 2 3 show ?thesis by (intro conjI)
qed

text \<open>
  C6. When the fetch of an image of an image-sequence request answers with a
  non-success HTTP status, the batch is aborted there: no image after that one is
  fetched, no encoder job is started, the request ends with the status 500 and an
  error message, and no stream is left open. When that image is the first whose fetch
  does not complete successfully, and the request starts on a fresh workspace under an
  existing application directory, the images up to and including it are exactly the
  ones fetched, in order, the message is \<^verbatim>\<open>Failed to fetch image i\<close>, and nothing of
  the workspace is left.
\<close>

theorem image_fetch_aborts_batch:
  assumes "images r = Some imgs"
    and "i < length imgs"
    and "fetch e i (imgs ! i) = HttpResponse False b"
  shows "encode_jobs (events (render_image e r f)) = []
    \<and> (\<exists>m. resp (render_image e r f) = Json 500 [(''error'', JStr m)])
    \<and> on_close (render_image e r f) = None
    \<and> (\<forall>k u. FetchEv k u \<in> set (events (render_image e r f)) \<longrightarrow> k \<le> i)
    \<and> (is_dir f (dirname e)
        \<and> (\<forall>q. prefix (workDir (dirname e) (now e)) q \<longrightarrow> f q = None)
        \<and> (\<forall>k < i. \<exists>n. fetch e k (imgs ! k) = HttpResponse True (Complete n)) \<longrightarrow>
          resp (render_image e r f) =
            Json 500 [(''error'', JStr (''Failed to fetch image '' @ show_nat i))]
          \<and> events (render_image e r f) = map (\<lambda>k. FetchEv k (imgs ! k)) [0..<Suc i]
          \<and> (\<forall>q. prefix (workDir (dirname e) (now e)) q \<longrightarrow>
                files (render_image e r f) q = None))"
proof -
  let ?w = "workDir (dirname e) (now e)"
  from assms(2) obtain u us where imgs: "imgs = u # us" by (cases imgs) auto
  have ev: "events (render_image e r f) = snd (snd (image_try e imgs f))"
    using assms(1) imgs by (simp add: render_image_events)
  from image_try_not_ok [OF assms(2,3), of f] obtain m where
    m: "fst (image_try e imgs f) = Inl m" and
    n: "encode_jobs (snd (snd (image_try e imgs f))) = []" by blast
  obtain f' evs where t: "image_try e imgs f = (Inl m, f', evs)"
    using m by (cases "image_try e imgs f") auto
  have rs: "resp (render_image e r f) = Json 500 [(''error'', JStr m)]"
    using t assms(1) imgs by (simp add: render_image_def Let_def)
  have 1: "encode_jobs (events (render_image e r f)) = []" using ev n by simp
  have 2: "\<exists>m. resp (render_image e r f) = Json 500 [(''error'', JStr m)]" using rs by blast
  have 3: "on_close (render_image e r f) = None"
    using t assms(1) imgs by (simp add: render_image_def Let_def)
  have 4: "\<forall>k u. FetchEv k u \<in> set (events (render_image e r f)) \<longrightarrow> k \<le> i"
    using image_try_fetch_bound [OF assms(2,3), of _ _ f] ev by auto
  have 5: "is_dir f (dirname e) \<and> (\<forall>q. prefix ?w q \<longrightarrow> f q = None)
        \<and> (\<forall>k < i. \<exists>n. fetch e k (imgs ! k) = HttpResponse True (Complete n)) \<longrightarrow>
          resp (render_image e r f) =
            Json 500 [(''error'', JStr (''Failed to fetch image '' @ show_nat i))]
          \<and> events (render_image e r f) = map (\<lambda>k. FetchEv k (imgs ! k)) [0..<Suc i]
          \<and> (\<forall>q. prefix ?w q \<longrightarrow> files (render_image e r f) q = None)"
  proof
    assume h: "is_dir f (dirname e) \<and> (\<forall>q. prefix ?w q \<longrightarrow> f q = None)
        \<and> (\<forall>k < i. \<exists>n. fetch e k (imgs ! k) = HttpResponse True (Complete n))"
    then have h1: "is_dir f (dirname e)" and h2: "\<forall>q. prefix ?w q \<longrightarrow> f q = None"
      and h3: "\<forall>k < i. \<exists>n. fetch e k (imgs ! k) = HttpResponse True (Complete n)" by blast+
    from image_try_first_failure [OF h1 h2 assms(2,3) h3]
    have a: "fst (image_try e imgs f) = Inl (''Failed to fetch image '' @ show_nat i)"
      and b: "snd (snd (image_try e imgs f)) = map (\<lambda>k. FetchEv k (imgs ! k)) [0..<Suc i]"
      by blast+
    from a m have "m = ''Failed to fetch image '' @ show_nat i" by simp
    with rs have c: "resp (render_image e r f) =
        Json 500 [(''error'', JStr (''Failed to fetch image '' @ show_nat i))]" by simp
    from render_image_failure_cleanup [OF rs] h2
    have d: "\<forall>q. prefix ?w q \<longrightarrow> files (render_image e r f) q = None" by auto
    from c b d ev show "resp (render_image e r f) =
            Json 500 [(''error'', JStr (''Failed to fetch image '' @ show_nat i))]
          \<and> events (render_image e r f) = map (\<lambda>k. FetchEv k (imgs ! k)) [0..<Suc i]
          \<and> (\<forall>q. prefix ?w q \<longrightarrow> files (render_image e r f) q = None)"
      by (simp only:)
  qed
  from 1 2 3 4 5 show ?thesis by (intro conjI)
qed

theorem image_fetch_aborts_batch_witness:
  "images reqB = Some [''a.jpg'', ''b.jpg'', ''c.jpg'']
   \<and> 1 < length [''a.jpg'', ''b.jpg'', ''c.jpg'']
   \<and> fetch env_404 1 ([''a.jpg'', ''b.jpg'', ''c.jpg''] ! 1) = HttpResponse False (Complete 1000)
   \<and> fetch env_404 0 ([''a.jpg'', ''b.jpg'', ''c.jpg''] ! 0) = HttpResponse True (Complete 1000)
   \<and> is_dir fs_app (dirname env_404)
   \<and> encode_jobs (events (render_image env_404 reqB fs_app)) = []
   \<and> resp (render_image env_404 reqB fs_app) = Json 500 [(''error'', JStr ''Failed to fetch image 1'')]
   \<and> events (render_image env_404 reqB fs_app) = [FetchEv 0 ''a.jpg'', FetchEv 1 ''b.jpg'']
   \<and> FetchEv 2 ''c.jpg'' \<notin> set (events (render_image env_404 reqB fs_app))
   \<and> files (render_image env_404 reqB fs_app) [''app'', ''temp-1700000000000''] = None
   \<and> files (render_image env_404 reqB fs_app) [''app'', ''temp-1700000000000'', ''image-0.jpg''] = None"
proof -
  let ?w = "workDir (dirname env_404) (now env_404)"
  have a: "images reqB = Some [''a.jpg'', ''b.jpg'', ''c.jpg'']" by (simp add: reqB_def)
  have b: "1 < length [''a.jpg'', ''b.jpg'', ''c.jpg'']" by simp
  have c: "fetch env_404 1 ([''a.jpg'', ''b.jpg'', ''c.jpg''] ! 1) = HttpResponse False (Complete 1000)"
    by (simp add: env_404_def env_ok_def)
  have c0: "fetch env_404 0 ([''a.jpg'', ''b.jpg'', ''c.jpg''] ! 0) = HttpResponse True (Complete 1000)"
    by (simp add: env_404_def env_ok_def)
  have w: "?w = [''app'', ''temp-1700000000000'']"
    by (simp add: workDir_eq show_nat_now env_404_def env_ok_def)
  have h1: "is_dir fs_app (dirname env_404)"
    by (simp add: is_dir_def fs_app_def env_404_def env_ok_def)
  have h2: "\<forall>q. prefix ?w q \<longrightarrow> fs_app q = None"
    unfolding w by (auto simp: fs_app_def prefix_def)
  have h3: "\<forall>k < 1. \<exists>n. fetch env_404 k ([''a.jpg'', ''b.jpg'', ''c.jpg''] ! k) =
      HttpResponse True (Complete n)"
    using c0 by simp
  note t = image_fetch_aborts_batch [OF a b c, of fs_app]
  from t have 1: "encode_jobs (events (render_image env_404 reqB fs_app)) = []" by blast
  from t h1 h2 h3 have 2: "resp (render_image env_404 reqB fs_app) =
      Json 500 [(''error'', JStr (''Failed to fetch image '' @ show_nat 1))]"
    and 3: "events (render_image env_404 reqB fs_app) =
      map (\<lambda>k. FetchEv k ([''a.jpg'', ''b.jpg'', ''c.jpg''] ! k)) [0..<Suc 1]"
    and 4: "\<forall>q. prefix ?w q \<longrightarrow> files (render_image env_404 reqB fs_app) q = None"
    by blast+
  from 2 have r2: "resp (render_image env_404 reqB fs_app) =
      Json 500 [(''error'', JStr ''Failed to fetch image 1'')]"
    by (simp add: show_nat_small)
  from 3 have r3: "events (render_image env_404 reqB fs_app) = [FetchEv 0 ''a.jpg'', FetchEv 1 ''b.jpg'']"
    by (simp add: upt_rec)
  from r3 have 5: "FetchEv 2 ''c.jpg'' \<notin> set (events (render_image env_404 reqB fs_app))" by simp
  from 4 have 6: "files (render_image env_404 reqB fs_app) [''app'', ''temp-1700000000000''] = None"
    unfolding w by simp
  from 4 have 7: "files (render_image env_404 reqB fs_app)
      [''app'', ''temp-1700000000000'', ''image-0.jpg''] = None"
    unfolding w by simp
  from a b c c0 h1 1 r2 r3 5 6 7 show ?thesis by (intro conjI)
qed

text \<open>
  C7. The text-overlay handler issues no fetch at all (the download step is a comment):
  no request is among its external calls, the background path in the shared directory
  is left as it was, and the encoder, when it is started, is given that path as input.
\<close>

theorem text_render_never_downloads:
  "(\<forall>i u. FetchEv i u \<notin> set (events (render_text e t f)))
   \<and> files (render_text e t f) (bgVideoPath (dirname e)) = f (bgVideoPath (dirname e))
   \<and> (encode_jobs (events (render_text e t f)) = []
        \<or> map inputs (encode_jobs (events (render_text e t f))) = [[(bgVideoPath (dirname e), None)]])"
proof (intro conjI allI)
  fix i u
  show "FetchEv i u \<notin> set (events (render_text e t f))"
    by (simp add: render_text_events_eq text_try_events_fetch)
next
  have "bgVideoPath (dirname e) \<noteq> text_outputPath (dirname e) t"
    using text_outputPath_not_bg [of "dirname e" t] by simp
  then show "files (render_text e t f) (bgVideoPath (dirname e)) = f (bgVideoPath (dirname e))"
    by (simp add: render_text_files text_try_other)
next
  from render_text_events [of e t f]
  show "encode_jobs (events (render_text e t f)) = []
        \<or> map inputs (encode_jobs (events (render_text e t f))) = [[(bgVideoPath (dirname e), None)]]"
    by (auto simp: text_job_def)
qed

theorem text_render_never_downloads_witness:
  "backgroundVideoUrl reqA = Some ''https://x/bg.mp4''
   \<and> fs_app (bgVideoPath (dirname env_ok)) = None
   \<and> files (render_text env_ok reqA fs_app) (bgVideoPath (dirname env_ok)) = None
   \<and> (\<forall>i u. FetchEv i u \<notin> set (events (render_text env_ok reqA fs_app)))
   \<and> events (render_text env_ok reqA fs_app) =
       [EncodeEv (text_job [''app''] reqA), UploadEv (text_uploadParams env_ok reqA)]
   \<and> inputs (text_job [''app''] reqA) = [([''app'', ''temp'', ''bg.mp4''], None)]"
proof -
  have a: "fs_app (bgVideoPath (dirname env_ok)) = None"
    by (simp add: fs_app_def bgVideoPath_eq env_ok_def)
  have b: "inputs (text_job [''app''] reqA) = [([''app'', ''temp'', ''bg.mp4''], None)]"
    by (simp add: text_job_def bgVideoPath_eq)
  have c: "backgroundVideoUrl reqA = Some ''https://x/bg.mp4''" by (simp add: reqA_def)
  from text_render_never_downloads [of env_ok reqA fs_app] a b c render_text_ok_events
  show ?thesis by (simp only:) simp
qed

text \<open>
  C8, as stated, fails: the image-sequence server answers scenario B with an MP4
  stream whose encoder job declares no audio codec.
\<close>

theorem output_shape_counterexample:
  "resp (render_image env_ok reqB fs_app) = Mp4Stream 5000
   \<and> map audioCodec (encode_jobs (events (render_image env_ok reqB fs_app))) = [None]
   \<and> map audioCodec (encode_jobs (events (render_image env_ok reqB fs_app))) \<noteq> [Some ''aac'']"
  by (simp add: render_image_ok_resp render_image_ok_jobs image_job_def)

text \<open>
  C8, amended. Every job of either server encodes the video with \<^verbatim>\<open>libx264\<close>, forces
  the pixel format \<^verbatim>\<open>yuv420p\<close> and writes a file whose name ends in \<^verbatim>\<open>.mp4\<close>. A
  text-overlay job declares the audio codec \<^verbatim>\<open>aac\<close>; an image-sequence job declares
  no audio codec and maps only the video stream \<^verbatim>\<open>[v]\<close> of a concat node with
  \<^verbatim>\<open>a=0\<close>.
\<close>

theorem output_shape:
  "(\<forall>j \<in> set (encode_jobs (events (render_text e t f))).
      videoCodec j = Some ''libx264'' \<and> audioCodec j = Some ''aac''
      \<and> ''-pix_fmt yuv420p'' \<in> set (outputOptions j)
      \<and> suffix ''.mp4'' (last (outputPath j)))
   \<and> (\<forall>j \<in> set (encode_jobs (events (render_image e r f))).
      videoCodec j = Some ''libx264'' \<and> audioCodec j = None \<and> maps j = [''[v]'']
      \<and> suffix '':v=1:a=0[v]'' (last (complexFilter j))
      \<and> ''-pix_fmt yuv420p'' \<in> set (outputOptions j)
      \<and> suffix ''.mp4'' (last (outputPath j)))"
proof (rule conjI; rule ballI)
  fix j assume "j \<in> set (encode_jobs (events (render_text e t f)))"
  with render_text_events [of e t f] have j: "j = text_job (dirname e) t" by auto
  obtain pre where "last (text_outputPath (dirname e) t) = pre @ ''-final-video.mp4''"
    using text_outputPath_last by blast
  then have "last (text_outputPath (dirname e) t) = (pre @ ''-final-video'') @ ''.mp4''" by simp
  then have "suffix ''.mp4'' (last (text_outputPath (dirname e) t))"
    unfolding suffix_def by blast
  then show "videoCodec j = Some ''libx264'' \<and> audioCodec j = Some ''aac''
      \<and> ''-pix_fmt yuv420p'' \<in> set (outputOptions j)
      \<and> suffix ''.mp4'' (last (outputPath j))"
    by (simp add: j text_job_def)
next
  fix j assume a: "j \<in> set (encode_jobs (events (render_image e r f)))"
  then obtain imgs where i: "images r = Some imgs"
    by (cases "images r") (auto simp: render_image_events)
  from render_image_jobs [OF i, of e f] a obtain w ps where j: "j = image_job w ps" by auto
  have "''output.mp4'' = ''output'' @ ''.mp4''" by simp
  then have s1: "suffix ''.mp4'' ''output.mp4''" unfolding suffix_def by blast
  have s2: "suffix '':v=1:a=0[v]'' (concat_node (length ps))"
    unfolding suffix_def concat_node_def by (metis append_assoc)
  show "videoCodec j = Some ''libx264'' \<and> audioCodec j = None \<and> maps j = [''[v]'']
      \<and> suffix '':v=1:a=0[v]'' (last (complexFilter j))
      \<and> ''-pix_fmt yuv420p'' \<in> set (outputOptions j)
      \<and> suffix ''.mp4'' (last (outputPath j))"
    using s1 s2 by (simp add: j image_job_def image_outputPath_last filter_specs_last)
qed

theorem output_shape_witness:
  "hd (encode_jobs (events (render_text env_ok reqA fs_app)))
      \<in> set (encode_jobs (events (render_text env_ok reqA fs_app)))
   \<and> audioCodec (hd (encode_jobs (events (render_text env_ok reqA fs_app)))) = Some ''aac''
   \<and> videoCodec (hd (encode_jobs (events (render_text env_ok reqA fs_app)))) = Some ''libx264''
   \<and> hd (encode_jobs (events (render_image env_ok reqB fs_app)))
      \<in> set (encode_jobs (events (render_image env_ok reqB fs_app)))
   \<and> audioCodec (hd (encode_jobs (events (render_image env_ok reqB fs_app)))) = None
   \<and> videoCodec (hd (encode_jobs (events (render_image env_ok reqB fs_app)))) = Some ''libx264''"
proof -
  have t: "hd (encode_jobs (events (render_text env_ok reqA fs_app)))
      \<in> set (encode_jobs (events (render_text env_ok reqA fs_app)))"
    by (simp add: render_text_ok_jobs)
  have i: "hd (encode_jobs (events (render_image env_ok reqB fs_app)))
      \<in> set (encode_jobs (events (render_image env_ok reqB fs_app)))"
    by (simp add: render_image_ok_jobs)
  from output_shape [of env_ok reqA fs_app reqB] t i show ?thesis by blast
qed

text \<open>
  C9, as stated, fails: the failure responses of the image-sequence server are JSON
  objects with the single field \<^verbatim>\<open>error\<close>; they are not the envelope and have no
  \<^verbatim>\<open>success\<close> field, on a validation failure (400) as on a fetch failure (500).
\<close>

theorem response_envelope_counterexample:
  "resp (render_image env_ok req_none fs_app) = Json 400 [(''error'', JStr ''No images provided'')]
   \<and> \<not> is_envelope (resp (render_image env_ok req_none fs_app))
   \<and> \<not> has_field ''success'' (resp (render_image env_ok req_none fs_app))
   \<and> resp (render_image env_404 reqB fs_app) = Json 500 [(''error'', JStr ''Failed to fetch image 1'')]
   \<and> \<not> has_field ''success'' (resp (render_image env_404 reqB fs_app))"
  by (simp add: render_image_none_resp render_image_404 has_field_def)

text \<open>
  C9, amended. The text-overlay server answers a request without background URL or
  video identifier with the status 400 and
  \<^verbatim>\<open>{ success: false, error: 'Missing background video URL or videoId.' }\<close>; every other
  request with the status 200 and \<^verbatim>\<open>{ success: true, videoUrl }\<close>, or with the status
  500 and \<^verbatim>\<open>{ success: false, error }\<close>, the error being \<^verbatim>\<open>Video rendering failed: \<close>
  and the message of the stage that failed; so \<^verbatim>\<open>success\<close> is true exactly in the 200
  response. The image-sequence server answers a request without images with the status
  400 and \<^verbatim>\<open>{ error: 'No images provided' }\<close>, and a stage failure with the status 500
  and \<^verbatim>\<open>{ error }\<close>: its JSON responses have the single field \<^verbatim>\<open>error\<close>.
\<close>

theorem response_bodies:
  "(falsy (backgroundVideoUrl t) \<or> falsy (videoId t) \<longrightarrow>
      resp (render_text e t f) =
        Json 400 [(''success'', JBool False),
                  (''error'', JStr ''Missing background video URL or videoId.'')])
   \<and> (\<not> (falsy (backgroundVideoUrl t) \<or> falsy (videoId t)) \<longrightarrow>
        (\<exists>loc. resp (render_text e t f) =
           Json 200 [(''success'', JBool True), (''videoUrl'', JStr loc)])
        \<or> (\<exists>m. resp (render_text e t f) =
           Json 500 [(''success'', JBool False),
                     (''error'', JStr (''Video rendering failed: '' @ m))]))
   \<and> is_envelope (resp (render_text e t f))
   \<and> (\<forall>s b k v. resp (render_text e t f) = Json s [(''success'', JBool b), (k, v)] \<longrightarrow>
        b = (s = 200))
   \<and> (images r = None \<or> images r = Some [] \<longrightarrow>
        resp (render_image e r f) = Json 400 [(''error'', JStr ''No images provided'')])
   \<and> (\<forall>u us. images r = Some (u # us) \<longrightarrow>
        (\<exists>m. resp (render_image e r f) = Json 500 [(''error'', JStr m)])
        \<or> (\<exists>n. resp (render_image e r f) = Mp4Stream n)
        \<or> resp (render_image e r f) = Crashed)
   \<and> (\<forall>s body. resp (render_image e r f) = Json s body \<longrightarrow>
        (s = 400 \<or> s = 500) \<and> (\<exists>m. body = [(''error'', JStr m)]))"
  using render_text_invalid [of t e f] render_text_valid [of t e f] render_text_envelope [of e t f]
    render_text_flag [of e t f] render_image_invalid [of r e f] render_image_valid [of r _ _ e f]
    render_image_json [of e r f]
  by (intro conjI allI impI) blast+

theorem response_bodies_witness:
  "falsy (videoId (reqA \<lparr> videoId := None \<rparr>))
   \<and> resp (render_text env_ok (reqA \<lparr> videoId := None \<rparr>) fs_app) =
       Json 400 [(''success'', JBool False),
                 (''error'', JStr ''Missing background video URL or videoId.'')]
   \<and> \<not> (falsy (backgroundVideoUrl reqA) \<or> falsy (videoId reqA))
   \<and> resp (render_text env_upload_denied reqA fs_app) =
       Json 500 [(''success'', JBool False), (''error'', JStr ''Video rendering failed: Access Denied'')]
   \<and> is_envelope (resp (render_text env_upload_denied reqA fs_app))
   \<and> images req_none = None
   \<and> resp (render_image env_ok req_none fs_app) = Json 400 [(''error'', JStr ''No images provided'')]
   \<and> resp (render_image env_404 reqB fs_app) = Json 500 [(''error'', JStr ''Failed to fetch image 1'')]
   \<and> (\<exists>m. [(''error'', JStr ''Failed to fetch image 1'')] = [(''error'', JStr m)])"
proof -
  have a: "falsy (videoId (reqA \<lparr> videoId := None \<rparr>))" by (simp add: falsy_def)
  have b: "\<not> (falsy (backgroundVideoUrl reqA) \<or> falsy (videoId reqA))"
    by (simp add: falsy_def reqA_def)
  have c: "images req_none = None" by (simp add: req_none_def)
  from response_bodies [of "reqA \<lparr> videoId := None \<rparr>" env_ok fs_app req_none] a c
  have 1: "resp (render_text env_ok (reqA \<lparr> videoId := None \<rparr>) fs_app) =
       Json 400 [(''success'', JBool False),
                 (''error'', JStr ''Missing background video URL or videoId.'')]"
    and 2: "resp (render_image env_ok req_none fs_app) =
       Json 400 [(''error'', JStr ''No images provided'')]"
    by blast+
  from response_bodies [of reqA env_upload_denied fs_app reqB]
  have 3: "is_envelope (resp (render_text env_upload_denied reqA fs_app))" by blast
  from response_bodies [of reqA env_404 fs_app reqB] render_image_404
  have 4: "\<exists>m. [(''error'', JStr ''Failed to fetch image 1'')] = [(''error'', JStr m)]" by blast
  from a 1 b render_text_denied_resp 3 c 2 render_image_404 4 show ?thesis by (intro conjI)
qed

text \<open>
  C10. The job description is a function of the request alone: two image-sequence
  requests with the same number of images, in any two environments (clock, directory,
  remote hosts, encoder, file system), give the encoder jobs with the same loop
  arguments, the same filter array, the same mapped labels, codecs and output options;
  two text-overlay requests with the same title likewise.
\<close>

theorem job_composition_deterministic:
  "(\<forall>j1 \<in> set (encode_jobs (events (render_image e1 r1 f1))).
    \<forall>j2 \<in> set (encode_jobs (events (render_image e2 r2 f2))).
      map_option length (images r1) = map_option length (images r2) \<longrightarrow> job_shape j1 = job_shape j2)
   \<and> (\<forall>j1 \<in> set (encode_jobs (events (render_text e1 t1 f1))).
      \<forall>j2 \<in> set (encode_jobs (events (render_text e2 t2 f2))).
        title t1 = title t2 \<longrightarrow> job_shape j1 = job_shape j2)"
proof (intro conjI ballI impI)
  fix j1 j2
  assume j1: "j1 \<in> set (encode_jobs (events (render_image e1 r1 f1)))"
    and j2: "j2 \<in> set (encode_jobs (events (render_image e2 r2 f2)))"
    and n: "map_option length (images r1) = map_option length (images r2)"
  from j1 obtain a where a: "images r1 = Some a"
    by (cases "images r1") (auto simp: render_image_events)
  from j2 obtain b where b: "images r2 = Some b"
    by (cases "images r2") (auto simp: render_image_events)
  from n a b have l: "length a = length b" by simp
  from render_image_jobs [OF a, of e1 f1] j1
  have "job_shape j1 = job_shape (image_job (workDir (dirname e1) (now e1))
      (map (imgPath (workDir (dirname e1) (now e1))) [0..<length a]))" by auto
  moreover from render_image_jobs [OF b, of e2 f2] j2
  have "job_shape j2 = job_shape (image_job (workDir (dirname e2) (now e2))
      (map (imgPath (workDir (dirname e2) (now e2))) [0..<length b]))" by auto
  ultimately show "job_shape j1 = job_shape j2"
    by (simp add: image_job_shape l)
next
  fix j1 j2
  assume j1: "j1 \<in> set (encode_jobs (events (render_text e1 t1 f1)))"
    and j2: "j2 \<in> set (encode_jobs (events (render_text e2 t2 f2)))"
    and n: "title t1 = title t2"
  from render_text_events [of e1 t1 f1] j1 have "j1 = text_job (dirname e1) t1" by auto
  moreover from render_text_events [of e2 t2 f2] j2 have "j2 = text_job (dirname e2) t2" by auto
  ultimately show "job_shape j1 = job_shape j2"
    by (simp add: text_job_shape n)
qed

theorem job_composition_deterministic_witness:
  "hd (encode_jobs (events (render_image env_ok reqB fs_app)))
      \<in> set (encode_jobs (events (render_image env_ok reqB fs_app)))
   \<and> hd (encode_jobs (events (render_image env_later reqB fs_app)))
      \<in> set (encode_jobs (events (render_image env_later reqB fs_app)))
   \<and> hd (encode_jobs (events (render_image env_ok reqB fs_app)))
      \<noteq> hd (encode_jobs (events (render_image env_later reqB fs_app)))
   \<and> job_shape (hd (encode_jobs (events (render_image env_ok reqB fs_app)))) =
     job_shape (hd (encode_jobs (events (render_image env_later reqB fs_app))))
   \<and> hd (encode_jobs (events (render_text env_ok reqA fs_app)))
      \<in> set (encode_jobs (events (render_text env_ok reqA fs_app)))
   \<and> hd (encode_jobs (events (render_text env_later reqA fs_app)))
      \<in> set (encode_jobs (events (render_text env_later reqA fs_app)))
   \<and> job_shape (hd (encode_jobs (events (render_text env_ok reqA fs_app)))) =
     job_shape (hd (encode_jobs (events (render_text env_later reqA fs_app))))"
proof -
  let ?i1 = "hd (encode_jobs (events (render_image env_ok reqB fs_app)))"
  let ?i2 = "hd (encode_jobs (events (render_image env_later reqB fs_app)))"
  let ?t1 = "hd (encode_jobs (events (render_text env_ok reqA fs_app)))"
  let ?t2 = "hd (encode_jobs (events (render_text env_later reqA fs_app)))"
  have i1: "?i1 \<in> set (encode_jobs (events (render_image env_ok reqB fs_app)))"
    by (simp add: render_image_ok_jobs)
  have i2: "?i2 \<in> set (encode_jobs (events (render_image env_later reqB fs_app)))"
    by (simp add: render_image_later_jobs)
  have t1: "?t1 \<in> set (encode_jobs (events (render_text env_ok reqA fs_app)))"
    by (simp add: render_text_ok_jobs)
  have t2: "?t2 \<in> set (encode_jobs (events (render_text env_later reqA fs_app)))"
    by (simp add: render_text_later_jobs)
  have d: "?i1 \<noteq> ?i2"
    by (simp add: render_image_ok_jobs render_image_later_jobs image_job_def)
  note det = job_composition_deterministic [where ?e1.0 = env_ok and ?r1.0 = reqB and ?f1.0 = fs_app
      and ?e2.0 = env_later and ?r2.0 = reqB and ?f2.0 = fs_app and ?t1.0 = reqA and ?t2.0 = reqA]
  from det i1 i2 have "job_shape ?i1 = job_shape ?i2" by blast
  moreover from det t1 t2 have "job_shape ?t1 = job_shape ?t2" by blast
  ultimately show ?thesis using i1 i2 t1 t2 d by blast
qed

end
